theory Spec2Isabelle
  imports Main "HOL-Library.Sublist"
begin

section \<open>The recents list of the action manager\<close>

text \<open>
  Modelled from the spec: the struct \<open>SRecent\<close> and its \<open>operator==\<close> are declared
  outside the file. The spec has the list hold (display name, path) pairs that are
  deduplicated by equality, so an entry is the record of its two strings, named as the
  file reads them, and \<open>recent == other\<close> is the equality of the records.
\<close>

record SRecent =
  fileName :: string
  filePath :: string

text \<open>
  What \<open>QFileInfo\<close> hands to \<open>addFileToRecentsList\<close>: the results of its getters
  \<open>fileName()\<close> and \<open>filePath()\<close>.
\<close>

record QFileInfo =
  fi_fileName :: string
  fi_filePath :: string

text \<open>
  \<open>QList::removeAt(i)\<close>: drops position \<open>i\<close>. The file calls it with an index below
  the length only.
\<close>

definition removeAt :: "nat \<Rightarrow> 'a list \<Rightarrow> 'a list" where
  "removeAt i xs = take i xs @ drop (Suc i) xs"

text \<open>
  The inner loop of \<open>auditRecentsList\<close> (``Check for duplicates''): \<open>i2\<close> runs from
  its start value while it is below the current length, skips \<open>i\<close>, and removes position
  \<open>i2\<close> when it holds an entry equal to \<open>recent\<close>. The index is incremented after a
  removal as well, as in the source.
\<close>

function checkDuplicates :: "SRecent \<Rightarrow> nat \<Rightarrow> nat \<Rightarrow> SRecent list \<Rightarrow> SRecent list" where
  "checkDuplicates recent i i2 xs =
     (if i2 < length xs then
        (if i = i2 then checkDuplicates recent i (Suc i2) xs
         else if recent = xs ! i2 then checkDuplicates recent i (Suc i2) (removeAt i2 xs)
         else checkDuplicates recent i (Suc i2) xs)
      else xs)"
  by pat_completeness auto
termination
  by (relation "measure (\<lambda>(recent, i, i2, xs). length xs - i2)") (auto simp: removeAt_def)

declare checkDuplicates.simps [simp del]

lemma length_removeAt_le: "length (removeAt i xs) \<le> length xs"
  by (simp add: removeAt_def)

lemma length_checkDuplicates_le: "length (checkDuplicates recent i i2 xs) \<le> length xs"
proof (induction recent i i2 xs rule: checkDuplicates.induct)
  case (1 recent i i2 xs)
  have unfold: "checkDuplicates recent i i2 xs =
     (if i2 < length xs then
        (if i = i2 then checkDuplicates recent i (Suc i2) xs
         else if recent = xs ! i2 then checkDuplicates recent i (Suc i2) (removeAt i2 xs)
         else checkDuplicates recent i (Suc i2) xs)
      else xs)"
    by (rule checkDuplicates.simps)
  show ?case
  proof (cases "i2 < length xs")
    case False
    then show ?thesis unfolding unfold by simp
  next
    case True
    note in_range = this
    show ?thesis
    proof (cases "i = i2")
      case True
      with in_range "1.IH"(1) show ?thesis unfolding unfold by simp
    next
      case False
      note ne = this
      show ?thesis
      proof (cases "recent = xs ! i2")
        case True
        with in_range ne "1.IH"(2) have
          "length (checkDuplicates recent i (Suc i2) (removeAt i2 xs)) \<le> length (removeAt i2 xs)"
          by simp
        also have "\<dots> \<le> length xs" by (rule length_removeAt_le)
        finally show ?thesis using in_range ne True unfolding unfold by simp
      next
        case False
        with in_range ne "1.IH"(3) show ?thesis unfolding unfold by simp
      qed
    qed
  qed
qed

text \<open>
  One pass of the outer loop body at index \<open>i\<close>: read the entry, remove position \<open>i\<close>
  when its path does not exist, then run the duplicate check for the entry that was read.
\<close>

definition auditStep :: "(string \<Rightarrow> bool) \<Rightarrow> nat \<Rightarrow> SRecent list \<Rightarrow> SRecent list" where
  "auditStep fileExists i xs =
     (let recent = xs ! i;
          xs1 = (if \<not> fileExists (filePath recent) then removeAt i xs else xs)
      in checkDuplicates recent i 0 xs1)"

lemma length_auditStep_le: "length (auditStep fileExists i xs) \<le> length xs"
proof -
  have "length (auditStep fileExists i xs)
          \<le> length (if \<not> fileExists (filePath (xs ! i)) then removeAt i xs else xs)"
    unfolding auditStep_def Let_def by (rule length_checkDuplicates_le)
  also have "\<dots> \<le> length xs" by (simp add: length_removeAt_le)
  finally show ?thesis .
qed

text \<open>The outer loop: \<open>for (int i = 0; i < recentsList.length(); i++)\<close>.\<close>

function auditLoop :: "(string \<Rightarrow> bool) \<Rightarrow> nat \<Rightarrow> SRecent list \<Rightarrow> SRecent list" where
  "auditLoop fileExists i xs =
     (if i < length xs then auditLoop fileExists (Suc i) (auditStep fileExists i xs) else xs)"
  by pat_completeness auto
termination
proof (relation "measure (\<lambda>(fileExists, i, xs). length xs - i)")
  show "wf (measure (\<lambda>(fileExists, i, xs). length xs - i))" by simp
next
  fix fileExists :: "string \<Rightarrow> bool" and i :: nat and xs :: "SRecent list"
  assume "i < length xs"
  moreover have "length (auditStep fileExists i xs) \<le> length xs"
    by (rule length_auditStep_le)
  ultimately show "((fileExists, Suc i, auditStep fileExists i xs), (fileExists, i, xs))
      \<in> measure (\<lambda>(fileExists, i, xs). length xs - i)"
    by simp
qed

declare auditLoop.simps [simp del]

text \<open>\<open>while (recentsList.size() > recentsListMaxLength) recentsList.removeLast();\<close>\<close>

function evictLoop :: "nat \<Rightarrow> SRecent list \<Rightarrow> SRecent list" where
  "evictLoop maxLength xs = (if length xs > maxLength then evictLoop maxLength (butlast xs) else xs)"
  by pat_completeness auto
termination
  by (relation "measure (\<lambda>(maxLength, xs). length xs)") auto

declare evictLoop.simps [simp del]

section \<open>Toolkit objects\<close>

text \<open>
  The toolkit's value types, as far as the manager uses them. A \<open>QVariant\<close> holds
  nothing, a string, a string list, a list of variants, or a value the manager only
  passes on (an open-with item).
\<close>

datatype QIcon = NullIcon | FromTheme string QIcon | FileTypeIcon string

datatype QVariant =
    Invalid
  | VString string
  | VStringList "string list"
  | VList "QVariant list"
  | VOpenWithItem nat

fun toString :: "QVariant \<Rightarrow> string" where
  "toString (VString s) = s"
| "toString _ = []"

fun toStringList :: "QVariant \<Rightarrow> string list" where
  "toStringList (VString s) = [s]"
| "toStringList (VStringList ss) = ss"
| "toStringList (VList vs) = map toString vs"
| "toStringList _ = []"

fun toList :: "QVariant \<Rightarrow> QVariant list" where
  "toList (VList vs) = vs"
| "toList (VStringList ss) = map VString ss"
| "toList _ = []"

datatype MenuRole =
  NoRole | TextHeuristicRole | ApplicationSpecificRole | AboutQtRole | AboutRole
  | PreferencesRole | QuitRole

text \<open>
  A \<open>QAction\<close> with the properties the manager reads and writes; each setter of the
  toolkit stores the property and each getter reads it back. \<open>newQAction\<close> is the
  action that \<open>new QAction()\<close> constructs.
\<close>

record QAction =
  icon :: QIcon
  data :: QVariant
  actionText :: string
  menuRole :: MenuRole
  isEnabled :: bool
  shortcuts :: "string list"
  isVisible :: bool
  isIconVisibleInMenu :: bool

definition newQAction :: QAction where
  "newQAction = \<lparr>icon = NullIcon, data = Invalid, actionText = [],
     menuRole = TextHeuristicRole, isEnabled = True, shortcuts = [], isVisible = True,
     isIconVisibleInMenu = True\<rparr>"

record QTimer =
  singleShot :: bool
  interval :: nat
  isActive :: bool

datatype signal = recentsMenuUpdated

section \<open>The state of the manager and of what it writes to\<close>

text \<open>
  Actions live in a store: \<open>actions\<close> is the list of all allocated \<open>QAction\<close>
  objects and a pointer to an action is its index; \<open>new\<close> appends. The canonical
  library \<open>actionLibrary\<close> is the \<open>QHash\<close> from keys to pointers, kept as the
  list of its pairs with one pair for a key; it only ever receives pointers from
  \<open>new\<close>, so a missing key is the only way \<open>value(key)\<close> is null. The two clone libraries are \<open>QMultiHash\<close>es: \<open>insert\<close> puts the pair in
  front and \<open>values(key)\<close> lists a key's pointers from the most recently inserted.
  A menu is represented by the pointer to its \<open>menuAction()\<close>. \<open>settings\<close> is the
  \<open>QSettings\<close> store with the group written into the key, and \<open>emitted\<close> the signals
  emitted so far.
\<close>

record state =
  recentsList :: "SRecent list"
  recentsListMaxLength :: nat
  openWithMaxLength :: nat
  isSaveRecentsEnabled :: bool
  recentsSaveTimer :: QTimer
  actionLibrary :: "(string \<times> nat) list"
  actionCloneLibrary :: "(string \<times> nat) list"
  menuCloneLibrary :: "(string \<times> nat) list"
  actions :: "QAction list"
  settings :: "string \<rightharpoonup> QVariant"
  emitted :: "signal list"

text \<open>
  What the manager consumes from its collaborators: the platform it was compiled for
  (\<open>Q_OS_WIN\<close>, \<open>Q_OS_MACOS\<close>, another \<open>Q_OS_UNIX\<close>, or none of them), whether a
  path exists on disk
  (\<open>QFileInfo::exists\<close>), the translation of a source string (\<open>tr\<close>), the icon the
  platform's lookup gives for a path, a boolean of the settings manager, and the two
  conversions between the recents list and its stored form, which are declared outside
  the file.
\<close>

datatype platform = Windows | MacOS | OtherUnix | OtherOS

record env =
  os :: platform
  fileExists :: "string \<Rightarrow> bool"
  tr :: "string \<Rightarrow> string"
  fileIcon :: "string \<Rightarrow> QIcon"
  getBoolean :: "string \<Rightarrow> bool"
  recentsListToVariantList :: "SRecent list \<Rightarrow> QVariant list"
  variantListToRecentsList :: "QVariant list \<Rightarrow> SRecent list"

definition values_of :: "string \<Rightarrow> (string \<times> nat) list \<Rightarrow> nat list" where
  "values_of key lib = map snd (filter (\<lambda>kv. fst kv = key) lib)"

definition insert_hash :: "string \<Rightarrow> nat \<Rightarrow> (string \<times> nat) list \<Rightarrow> (string \<times> nat) list" where
  "insert_hash key p lib = (key, p) # filter (\<lambda>kv. fst kv \<noteq> key) lib"

definition insert_multi :: "string \<Rightarrow> nat \<Rightarrow> (string \<times> nat) list \<Rightarrow> (string \<times> nat) list" where
  "insert_multi key p lib = (key, p) # lib"

text \<open>\<open>QString::number(i)\<close> for a non-negative \<open>i\<close>: its decimal digits.\<close>

definition digit :: "nat \<Rightarrow> char" where
  "digit d = ''0123456789'' ! d"

fun number :: "nat \<Rightarrow> string" where
  "number n = (if n < 10 then [digit n] else number (n div 10) @ [digit (n mod 10)])"

declare number.simps [simp del]

section \<open>Showing the recents list in the menus\<close>

text \<open>
  The body of the inner loop of \<open>updateRecentsMenu\<close> for one action of slot \<open>i\<close>.
\<close>

definition updateRecentAction :: "env \<Rightarrow> SRecent list \<Rightarrow> nat \<Rightarrow> QAction \<Rightarrow> QAction" where
  "updateRecentAction e recents i a =
     (if i < length recents then
        (let recent = recents ! i
         in a\<lparr>isVisible := True, actionText := fileName recent,
              icon := fileIcon e (filePath recent)\<rparr>)
      else a\<lparr>isVisible := False, actionText := tr e ''Empty''\<rparr>)"

fun updateRecentActions :: "env \<Rightarrow> SRecent list \<Rightarrow> nat \<Rightarrow> nat list \<Rightarrow> QAction list \<Rightarrow> QAction list" where
  "updateRecentActions e recents i [] h = h"
| "updateRecentActions e recents i (p # ps) h =
     updateRecentActions e recents i ps (h[p := updateRecentAction e recents i (h ! p)])"

function updateRecentsLoop :: "env \<Rightarrow> nat \<Rightarrow> state \<Rightarrow> state" where
  "updateRecentsLoop e i s =
     (if i < recentsListMaxLength s then
        updateRecentsLoop e (Suc i)
          (s\<lparr>actions := updateRecentActions e (recentsList s) i
                (values_of (''recent'' @ number i) (actionCloneLibrary s)) (actions s)\<rparr>)
      else s)"
  by pat_completeness auto
termination
  by (relation "measure (\<lambda>(e, i, s). recentsListMaxLength s - i)") auto

declare updateRecentsLoop.simps [simp del]

definition updateRecentsMenu :: "env \<Rightarrow> state \<Rightarrow> state" where
  "updateRecentsMenu e s =
     (let s1 = updateRecentsLoop e 0 s
      in s1\<lparr>emitted := emitted s1 @ [recentsMenuUpdated]\<rparr>)"

section \<open>Auditing, saving and loading the recents list\<close>

definition auditRecentsList :: "env \<Rightarrow> state \<Rightarrow> state" where
  "auditRecentsList e s =
     (let s1 = (if \<not> isSaveRecentsEnabled s then s\<lparr>recentsList := []\<rparr> else s);
          s2 = s1\<lparr>recentsList := auditLoop (fileExists e) 0 (recentsList s1)\<rparr>;
          s3 = s2\<lparr>recentsList := evictLoop (recentsListMaxLength s2) (recentsList s2)\<rparr>
      in updateRecentsMenu e s3)"

definition saveRecentsList :: "env \<Rightarrow> state \<Rightarrow> state" where
  "saveRecentsList e s =
     (let s1 = auditRecentsList e s;
          variantList = recentsListToVariantList e (recentsList s1)
      in s1\<lparr>settings := (settings s1)(''recents/recentFiles'' \<mapsto> VList variantList)\<rparr>)"

definition settingsValue :: "state \<Rightarrow> string \<Rightarrow> QVariant" where
  "settingsValue s key = (case settings s key of None \<Rightarrow> Invalid | Some v \<Rightarrow> v)"

definition loadRecentsList :: "env \<Rightarrow> state \<Rightarrow> state" where
  "loadRecentsList e s =
     (if isActive (recentsSaveTimer s) then s
      else
        (let variantListRecents = toList (settingsValue s ''recents/recentFiles'')
         in auditRecentsList e
              (s\<lparr>recentsList := variantListToRecentsList e variantListRecents\<rparr>)))"

text \<open>\<open>QTimer::start()\<close> makes the timer active (and restarts it when it runs).\<close>

definition start :: "QTimer \<Rightarrow> QTimer" where
  "start t = t\<lparr>isActive := True\<rparr>"

definition addFileToRecentsList :: "env \<Rightarrow> QFileInfo \<Rightarrow> state \<Rightarrow> state" where
  "addFileToRecentsList e file s =
     (let s1 = s\<lparr>recentsList :=
                  \<lparr>fileName = fi_fileName file, filePath = fi_filePath file\<rparr> # recentsList s\<rparr>;
          s2 = auditRecentsList e s1
      in s2\<lparr>recentsSaveTimer := start (recentsSaveTimer s2)\<rparr>)"

definition clearRecentsList :: "env \<Rightarrow> state \<Rightarrow> state" where
  "clearRecentsList e s = saveRecentsList e (s\<lparr>recentsList := []\<rparr>)"

text \<open>
  The timer's \<open>timeout\<close> is connected to \<open>saveRecentsList\<close> in the constructor. When an
  active timer fires, a single-shot timer stops and the slot runs; an inactive timer
  never fires.
\<close>

definition recentsSaveTimerTimeout :: "env \<Rightarrow> state \<Rightarrow> state" where
  "recentsSaveTimerTimeout e s =
     (if isActive (recentsSaveTimer s) then
        saveRecentsList e
          (s\<lparr>recentsSaveTimer :=
               (recentsSaveTimer s)\<lparr>isActive := \<not> singleShot (recentsSaveTimer s)\<rparr>\<rparr>)
      else s)"

fun setVisibleAll :: "nat list \<Rightarrow> bool \<Rightarrow> QAction list \<Rightarrow> QAction list" where
  "setVisibleAll [] b h = h"
| "setVisibleAll (p # ps) b h = setVisibleAll ps b (h[p := (h ! p)\<lparr>isVisible := b\<rparr>])"

definition settingsUpdated :: "env \<Rightarrow> state \<Rightarrow> state" where
  "settingsUpdated e s =
     (let s1 = s\<lparr>isSaveRecentsEnabled := getBoolean e ''saverecents''\<rparr>;
          recentsMenus = values_of ''recents'' (menuCloneLibrary s1);
          s2 = s1\<lparr>actions := setVisibleAll recentsMenus (isSaveRecentsEnabled s1) (actions s1)\<rparr>
      in if \<not> isSaveRecentsEnabled s2 then clearRecentsList e s2 else s2)"

section \<open>Cloning actions\<close>

definition getAction :: "string \<Rightarrow> state \<Rightarrow> nat option" where
  "getAction key s = (case map_of (actionLibrary s) key of Some action \<Rightarrow> Some action | None \<Rightarrow> None)"

definition cloneAction :: "string \<Rightarrow> state \<Rightarrow> nat option \<times> state" where
  "cloneAction key s =
     (case getAction key s of
        Some action \<Rightarrow>
          (let a = actions s ! action;
               newAction = length (actions s);
               n0 = newQAction;
               n1 = n0\<lparr>icon := icon a\<rparr>;
               n2 = n1\<lparr>data := data a\<rparr>;
               n3 = n2\<lparr>actionText := actionText a\<rparr>;
               n4 = n3\<lparr>menuRole := menuRole a\<rparr>;
               n5 = n4\<lparr>isEnabled := isEnabled a\<rparr>;
               n6 = n5\<lparr>shortcuts := shortcuts a\<rparr>;
               n7 = n6\<lparr>isVisible := isVisible a\<rparr>
           in (Some newAction,
               s\<lparr>actions := actions s @ [n7],
                 actionCloneLibrary := insert_multi key newAction (actionCloneLibrary s)\<rparr>))
      | None \<Rightarrow> (None, s))"

section \<open>The canonical action library and the constructor\<close>

text \<open>
  \<open>new QAction(icon, text)\<close>, and \<open>QIcon::fromTheme(name)\<close> with no fallback.
\<close>

definition newQActionWith :: "QIcon \<Rightarrow> string \<Rightarrow> QAction" where
  "newQActionWith ic t = newQAction\<lparr>icon := ic, actionText := t\<rparr>"

definition fromTheme :: "string \<Rightarrow> QIcon" where
  "fromTheme name = FromTheme name NullIcon"

text \<open>
  The actions that \<open>initializeActionLibrary\<close> creates, each with the key it is inserted
  under, in the order of the source. The texts that depend on the platform are set with
  \<open>setText\<close> after construction, as in the source; \<open>setData({"disable"})\<close> stores a
  string.
\<close>

definition libraryActions :: "env \<Rightarrow> (string \<times> QAction) list" where
  "libraryActions e =
   [(''quit'',
       (let a = newQActionWith (fromTheme ''application-exit'') (tr e ''&Quit'')
        in if os e = Windows then a\<lparr>actionText := tr e ''Exit''\<rparr> else a)),
    (''newwindow'', newQActionWith (fromTheme ''window-new'') (tr e ''New Window'')),
    (''open'', newQActionWith (fromTheme ''document-open'') (tr e ''&Open...'')),
    (''openurl'',
       newQActionWith (FromTheme ''document-open-remote'' (fromTheme ''folder-remote''))
         (tr e ''Open &URL...'')),
    (''closewindow'', newQActionWith (fromTheme ''window-close'') (tr e ''Close Window'')),
    (''closeallwindows'', newQActionWith (fromTheme ''window-close'') (tr e ''Close All'')),
    (''opencontainingfolder'',
       (let a = newQActionWith (fromTheme ''document-open'') (tr e ''Open Containing &Folder'');
            a1 = (if os e = Windows then a\<lparr>actionText := tr e ''Show in E&xplorer''\<rparr>
                  else if os e = MacOS then a\<lparr>actionText := tr e ''Show in &Finder''\<rparr>
                  else a)
        in a1\<lparr>data := VString ''disable''\<rparr>)),
    (''showfileinfo'',
       (newQActionWith (fromTheme ''document-properties'') (tr e ''Show File &Info''))
         \<lparr>data := VString ''disable''\<rparr>),
    (''delete'',
       (let a = newQActionWith (fromTheme ''edit-delete'') (tr e ''&Move to Trash'');
            a1 = (if os e = Windows then a\<lparr>actionText := tr e ''&Delete''\<rparr> else a)
        in a1\<lparr>data := VString ''disable''\<rparr>)),
    (''undo'',
       (let a = newQActionWith (fromTheme ''edit-undo'') (tr e ''&Restore from Trash'');
            a1 = (if os e = Windows then a\<lparr>actionText := tr e ''&Undo Delete''\<rparr> else a)
        in a1\<lparr>data := VString ''undodisable''\<rparr>)),
    (''copy'',
       (newQActionWith (fromTheme ''edit-copy'') (tr e ''&Copy''))\<lparr>data := VString ''disable''\<rparr>),
    (''paste'', newQActionWith (fromTheme ''edit-paste'') (tr e ''&Paste'')),
    (''rename'',
       (newQActionWith (FromTheme ''edit-rename'' (fromTheme ''document-properties''))
          (tr e ''R&ename...''))\<lparr>data := VString ''disable''\<rparr>),
    (''zoomin'',
       (newQActionWith (fromTheme ''zoom-in'') (tr e ''Zoom &In''))
         \<lparr>data := VString ''disable''\<rparr>),
    (''zoomout'',
       (newQActionWith (fromTheme ''zoom-out'') (tr e ''Zoom &Out''))
         \<lparr>data := VString ''disable''\<rparr>),
    (''resetzoom'',
       (newQActionWith (fromTheme ''zoom-fit-best'') (tr e ''Reset &Zoom''))
         \<lparr>data := VString ''disable''\<rparr>),
    (''originalsize'',
       (newQActionWith (fromTheme ''zoom-original'') (tr e ''Ori&ginal Size''))
         \<lparr>data := VString ''disable''\<rparr>),
    (''rotateright'',
       (newQActionWith (fromTheme ''object-rotate-right'') (tr e ''Rotate &Right''))
         \<lparr>data := VString ''disable''\<rparr>),
    (''rotateleft'',
       (newQActionWith (fromTheme ''object-rotate-left'') (tr e ''Rotate &Left''))
         \<lparr>data := VString ''disable''\<rparr>),
    (''mirror'',
       (newQActionWith (fromTheme ''object-flip-horizontal'') (tr e ''&Mirror''))
         \<lparr>data := VString ''disable''\<rparr>),
    (''flip'',
       (newQActionWith (fromTheme ''object-flip-vertical'') (tr e ''&Flip''))
         \<lparr>data := VString ''disable''\<rparr>),
    (''fullscreen'',
       (newQActionWith (fromTheme ''view-fullscreen'') (tr e ''Enter F&ull Screen''))
         \<lparr>menuRole := NoRole\<rparr>),
    (''firstfile'',
       (newQActionWith (fromTheme ''go-first'') (tr e ''&First File''))
         \<lparr>data := VString ''folderdisable''\<rparr>),
    (''previousfile'',
       (newQActionWith (fromTheme ''go-previous'') (tr e ''Previous Fi&le''))
         \<lparr>data := VString ''folderdisable''\<rparr>),
    (''nextfile'',
       (newQActionWith (fromTheme ''go-next'') (tr e ''&Next File''))
         \<lparr>data := VString ''folderdisable''\<rparr>),
    (''lastfile'',
       (newQActionWith (fromTheme ''go-last'') (tr e ''Las&t File''))
         \<lparr>data := VString ''folderdisable''\<rparr>),
    (''saveframeas'',
       (newQActionWith (fromTheme ''document-save-as'') (tr e ''Save Frame &As...''))
         \<lparr>data := VString ''gifdisable''\<rparr>),
    (''pause'',
       (newQActionWith (fromTheme ''media-playback-pause'') (tr e ''Pa&use''))
         \<lparr>data := VString ''gifdisable''\<rparr>),
    (''nextframe'',
       (newQActionWith (fromTheme ''media-skip-forward'') (tr e ''&Next Frame''))
         \<lparr>data := VString ''gifdisable''\<rparr>),
    (''decreasespeed'',
       (newQActionWith (fromTheme ''media-seek-backward'') (tr e ''&Decrease Speed''))
         \<lparr>data := VString ''gifdisable''\<rparr>),
    (''resetspeed'',
       (newQActionWith (fromTheme ''media-playback-start'') (tr e ''&Reset Speed''))
         \<lparr>data := VString ''gifdisable''\<rparr>),
    (''increasespeed'',
       (newQActionWith (fromTheme ''media-skip-forward'') (tr e ''&Increase Speed''))
         \<lparr>data := VString ''gifdisable''\<rparr>),
    (''slideshow'',
       (newQActionWith (fromTheme ''media-playback-start'') (tr e ''Start S&lideshow''))
         \<lparr>data := VString ''disable''\<rparr>),
    (''options'',
       (let a = newQActionWith (FromTheme ''configure'' (fromTheme ''preferences-other''))
                  (tr e ''Option&s'')
        in if os e = OtherUnix then a\<lparr>actionText := tr e ''Preference&s''\<rparr>
           else if os e = MacOS then a\<lparr>actionText := tr e ''Preference&s...''\<rparr>
           else a)),
    (''about'',
       (let a = newQActionWith (fromTheme ''help-about'') (tr e ''&About'')
        in if os e = MacOS then a\<lparr>actionText := tr e ''&About qView''\<rparr> else a)),
    (''welcome'',
       newQActionWith (FromTheme ''help-faq'' (fromTheme ''help-about'')) (tr e ''&Welcome'')),
    (''clearrecents'', newQActionWith (fromTheme ''edit-delete'') (tr e ''Clear &Menu'')),
    (''openwithother'',
       (let a = newQAction\<lparr>actionText := tr e ''Other Application...''\<rparr>
        in if os e = Windows then a\<lparr>actionText := tr e ''Choose another app''\<rparr>
           else if os e = MacOS then a\<lparr>actionText := tr e ''Other...''\<rparr>
           else a))]"

text \<open>Allocating an action and inserting its pointer into the library under a key.\<close>

definition libraryInsert :: "string \<times> QAction \<Rightarrow> state \<Rightarrow> state" where
  "libraryInsert ka s =
     s\<lparr>actions := actions s @ [snd ka],
       actionLibrary := insert_hash (fst ka) (length (actions s)) (actionLibrary s)\<rparr>"

text \<open>
  The closing loop of \<open>initializeActionLibrary\<close> (``Set data values and disable
  actions''), for one key: the key goes in front of the action's data, and the action is
  disabled when the last string of the data contains \<open>disable\<close>.
\<close>

definition setDataValue :: "string \<Rightarrow> QAction \<Rightarrow> QAction" where
  "setDataValue key a =
     (let d = key # toStringList (data a);
          a1 = a\<lparr>data := VStringList d\<rparr>
      in if sublist ''disable'' (last d) then a1\<lparr>isEnabled := False\<rparr> else a1)"

fun setDataValues :: "string list \<Rightarrow> state \<Rightarrow> state" where
  "setDataValues [] s = s"
| "setDataValues (key # keys) s =
     setDataValues keys
       (case map_of (actionLibrary s) key of
          Some p \<Rightarrow> s\<lparr>actions := (actions s)[p := setDataValue key (actions s ! p)]\<rparr>
        | None \<Rightarrow> s)"

definition initializeActionLibrary :: "env \<Rightarrow> state \<Rightarrow> state" where
  "initializeActionLibrary e s =
     (let s1 = fold libraryInsert (libraryActions e) s
      in setDataValues (map fst (actionLibrary s1)) s1)"

text \<open>
  The constructor, run on the state of the world it is created in: the containers start
  empty, \<open>isSaveRecentsEnabled\<close> is not assigned and keeps the value it comes with, the
  timer is created single-shot with an interval of 500 ms, and the stored list is loaded.
\<close>

definition ActionManager :: "env \<Rightarrow> state \<Rightarrow> state" where
  "ActionManager e s0 =
     (let s1 = s0\<lparr>recentsList := [], actionLibrary := [], actionCloneLibrary := [],
                  menuCloneLibrary := []\<rparr>;
          s2 = s1\<lparr>recentsListMaxLength := 10\<rparr>;
          s3 = s2\<lparr>openWithMaxLength := 10\<rparr>;
          s4 = initializeActionLibrary e s3;
          s5 = s4\<lparr>recentsSaveTimer := \<lparr>singleShot = False, interval = 0, isActive = False\<rparr>\<rparr>;
          s6 = s5\<lparr>recentsSaveTimer := (recentsSaveTimer s5)\<lparr>singleShot := True\<rparr>\<rparr>;
          s7 = s6\<lparr>recentsSaveTimer := (recentsSaveTimer s6)\<lparr>interval := 500\<rparr>\<rparr>
      in loadRecentsList e s7)"

section \<open>Building the recents menu\<close>

text \<open>
  The loop of \<open>buildRecentsMenu\<close> that creates the slot actions: a new action with the
  text \<open>tr("Empty")\<close>, invisible, with the data \<open>"recent" + QString::number(i)\<close>, tracked
  in the clone library under the first string of its data. (The key is the string just
  stored, so \<open>first()\<close> is defined.)
\<close>

definition newRecentAction :: "env \<Rightarrow> nat \<Rightarrow> QAction" where
  "newRecentAction e i =
     (let a0 = newQAction\<lparr>actionText := tr e ''Empty''\<rparr>;
          a1 = a0\<lparr>isVisible := False\<rparr>;
          a2 = a1\<lparr>isIconVisibleInMenu := True\<rparr>
      in a2\<lparr>data := VString (''recent'' @ number i)\<rparr>)"

function buildRecentSlots :: "env \<Rightarrow> nat \<Rightarrow> state \<Rightarrow> state" where
  "buildRecentSlots e i s =
     (if i < recentsListMaxLength s then
        (let action = length (actions s);
             a = newRecentAction e i
         in buildRecentSlots e (Suc i)
              (s\<lparr>actions := actions s @ [a],
                 actionCloneLibrary :=
                   insert_multi (hd (toStringList (data a))) action (actionCloneLibrary s)\<rparr>))
      else s)"
  by pat_completeness auto
termination
  by (relation "measure (\<lambda>(e, i, s). recentsListMaxLength s - i)") (auto simp: Let_def)

declare buildRecentSlots.simps [simp del]

text \<open>
  \<open>buildRecentsMenu\<close>: the menu is created (its \<open>menuAction()\<close> carries the title, the
  data \<open>"recents"\<close> and the icon), the slots are added, the clear action is cloned on
  request, the menu is tracked, and the menu and the setting are refreshed. The result
  is the pointer to the menu. (The connection of the menu's \<open>aboutToShow\<close> to
  \<open>loadRecentsList\<close> is wiring: showing the menu is a call of \<open>loadRecentsList\<close>.)
\<close>

definition buildRecentsMenu :: "env \<Rightarrow> bool \<Rightarrow> state \<Rightarrow> nat \<times> state" where
  "buildRecentsMenu e includeClearAction s =
     (let recentsMenu = length (actions s);
          m0 = newQAction\<lparr>actionText := tr e ''Open &Recent''\<rparr>;
          m1 = m0\<lparr>data := VString ''recents''\<rparr>;
          m2 = m1\<lparr>icon := fromTheme ''document-open-recent''\<rparr>;
          s1 = s\<lparr>actions := actions s @ [m2]\<rparr>;
          s2 = buildRecentSlots e 0 s1;
          s3 = (if includeClearAction then snd (cloneAction ''clearrecents'' s2) else s2);
          s4 = s3\<lparr>menuCloneLibrary :=
                    insert_multi (toString (data (actions s3 ! recentsMenu))) recentsMenu
                      (menuCloneLibrary s3)\<rparr>;
          s5 = updateRecentsMenu e s4
      in (recentsMenu, settingsUpdated e s5))"

section \<open>Dispatching a triggered action\<close>

text \<open>
  What a dispatch does outside the manager is recorded as the list of the calls it makes:
  a method of the relevant main window, a call into the application, or a call on
  another window. \<open>first()\<close> on an empty list, \<open>at(1)\<close> out of range and \<open>close()\<close> through
  a null active window are errors.
\<close>

datatype windowMethod =
    close | openRecent int | openWith QVariant | pickUrl | openContainingFolder
  | showFileInfo | askDeleteFile | undoDelete | copy | paste | rename | zoomIn | zoomOut
  | resetZoom | originalSize | rotateRight | rotateLeft | mirror | flip | toggleFullScreen
  | firstFile | previousFile | nextFile | lastFile | saveFrameAs | pause | nextFrame
  | decreaseSpeed | resetSpeed | increaseSpeed | toggleSlideshow

datatype call =
    OnWindow nat windowMethod
  | quit
  | newWindow
  | pickFile "nat option"
  | openOptionsDialog "nat option"
  | openAboutDialog "nat option"
  | openWelcomeDialog "nat option"
  | managerClearRecentsList
  | showOpenWithDialog nat
  | cocoaCloseWindow nat
  | otherWindowClose nat

datatype error = EmptyList | IndexOutOfRange | NullPointer

text \<open>
  What the dispatch asks of the application: which main window \<open>getMainWindow\<close> returns
  (none for a null pointer), the active window, the top-level windows, and whether the
  build has \<open>COCOA_LOADED\<close>.
\<close>

record app =
  getMainWindow :: "bool \<Rightarrow> nat option"
  activeWindow :: "nat option"
  topLevelWindows :: "nat list"
  cocoaLoaded :: bool

text \<open>\<open>QChar::digitValue()\<close>: the value of a decimal digit, and -1 for another character.\<close>

definition digitValue :: "char \<Rightarrow> int" where
  "digitValue c =
     (let n = (of_char c :: nat) in if 48 \<le> n \<and> n \<le> 57 then int n - 48 else - 1)"

text \<open>The first chain of the two-argument overload: the keys that work with a null window.\<close>

definition nullWindowConditions :: "app \<Rightarrow> string \<Rightarrow> nat option \<Rightarrow> error + call list" where
  "nullWindowConditions ap key relevantWindow =
     (if key = ''quit'' then
        Inr ((case relevantWindow of Some w \<Rightarrow> [OnWindow w close] | None \<Rightarrow> []) @ [quit])
      else if key = ''newwindow'' then Inr [newWindow]
      else if key = ''open'' then Inr [pickFile relevantWindow]
      else if key = ''quit'' then
        Inr ((case relevantWindow of Some w \<Rightarrow> [OnWindow w close] | None \<Rightarrow> []) @ [quit])
      else if key = ''newwindow'' then Inr [newWindow]
      else if key = ''open'' then Inr [pickFile relevantWindow]
      else if key = ''closewindow'' then
        (case activeWindow ap of
           None \<Rightarrow> Inl NullPointer
         | Some active \<Rightarrow>
             Inr ((if cocoaLoaded ap then [cocoaCloseWindow active] else [])
                  @ [otherWindowClose active]))
      else if key = ''closeallwindows'' then
        Inr (concat (map (\<lambda>window. (if cocoaLoaded ap then [cocoaCloseWindow window] else [])
                                    @ [otherWindowClose window])
                      (topLevelWindows ap)))
      else if key = ''options'' then Inr [openOptionsDialog relevantWindow]
      else if key = ''about'' then Inr [openAboutDialog relevantWindow]
      else if key = ''welcome'' then Inr [openWelcomeDialog relevantWindow]
      else if key = ''clearrecents'' then Inr [managerClearRecentsList]
      else Inr [])"

text \<open>The second chain: the keys that require a valid window pointer.\<close>

definition windowConditions :: "QAction \<Rightarrow> string \<Rightarrow> nat \<Rightarrow> error + call list" where
  "windowConditions triggeredAction key relevantWindow =
     (if prefix ''recent'' key then
        Inr [OnWindow relevantWindow (openRecent (digitValue (last key)))]
      else if key = ''openwithother'' then Inr [showOpenWithDialog relevantWindow]
      else if prefix ''openwith'' key then
        (let l = toList (data triggeredAction)
         in if 1 < length l then Inr [OnWindow relevantWindow (openWith (l ! 1))]
            else Inl IndexOutOfRange)
      else if key = ''openurl'' then Inr [OnWindow relevantWindow pickUrl]
      else if key = ''opencontainingfolder'' then Inr [OnWindow relevantWindow openContainingFolder]
      else if key = ''showfileinfo'' then Inr [OnWindow relevantWindow showFileInfo]
      else if key = ''delete'' then Inr [OnWindow relevantWindow askDeleteFile]
      else if key = ''undo'' then Inr [OnWindow relevantWindow undoDelete]
      else if key = ''copy'' then Inr [OnWindow relevantWindow copy]
      else if key = ''paste'' then Inr [OnWindow relevantWindow paste]
      else if key = ''rename'' then Inr [OnWindow relevantWindow rename]
      else if key = ''zoomin'' then Inr [OnWindow relevantWindow zoomIn]
      else if key = ''zoomout'' then Inr [OnWindow relevantWindow zoomOut]
      else if key = ''resetzoom'' then Inr [OnWindow relevantWindow resetZoom]
      else if key = ''originalsize'' then Inr [OnWindow relevantWindow originalSize]
      else if key = ''rotateright'' then Inr [OnWindow relevantWindow rotateRight]
      else if key = ''rotateleft'' then Inr [OnWindow relevantWindow rotateLeft]
      else if key = ''mirror'' then Inr [OnWindow relevantWindow mirror]
      else if key = ''flip'' then Inr [OnWindow relevantWindow flip]
      else if key = ''fullscreen'' then Inr [OnWindow relevantWindow toggleFullScreen]
      else if key = ''firstfile'' then Inr [OnWindow relevantWindow firstFile]
      else if key = ''previousfile'' then Inr [OnWindow relevantWindow previousFile]
      else if key = ''nextfile'' then Inr [OnWindow relevantWindow nextFile]
      else if key = ''lastfile'' then Inr [OnWindow relevantWindow lastFile]
      else if key = ''saveframeas'' then Inr [OnWindow relevantWindow saveFrameAs]
      else if key = ''pause'' then Inr [OnWindow relevantWindow pause]
      else if key = ''nextframe'' then Inr [OnWindow relevantWindow nextFrame]
      else if key = ''decreasespeed'' then Inr [OnWindow relevantWindow decreaseSpeed]
      else if key = ''resetspeed'' then Inr [OnWindow relevantWindow resetSpeed]
      else if key = ''increasespeed'' then Inr [OnWindow relevantWindow increaseSpeed]
      else if key = ''slideshow'' then Inr [OnWindow relevantWindow toggleSlideshow]
      else Inr [])"

text \<open>
  \<open>actionTriggered(QAction*, MainWindow*)\<close>: the first chain, then ``the great filter''
  that returns for a null window, then the second chain.
\<close>

definition actionTriggered2 :: "app \<Rightarrow> QAction \<Rightarrow> nat option \<Rightarrow> error + call list" where
  "actionTriggered2 ap triggeredAction relevantWindow =
     (case toStringList (data triggeredAction) of
        [] \<Rightarrow> Inl EmptyList
      | key # _ \<Rightarrow>
          (case nullWindowConditions ap key relevantWindow of
             Inl err \<Rightarrow> Inl err
           | Inr calls \<Rightarrow>
               (case relevantWindow of
                  None \<Rightarrow> Inr calls
                | Some w \<Rightarrow>
                    (case windowConditions triggeredAction key w of
                       Inl err \<Rightarrow> Inl err
                     | Inr calls2 \<Rightarrow> Inr (calls @ calls2)))))"

text \<open>
  \<open>actionTriggered(QAction*)\<close>: the list of the actions that need no window, searched
  in order, then the request for a main window.
\<close>

definition windowlessActions :: "env \<Rightarrow> string list" where
  "windowlessActions e =
     [''newwindow'', ''quit'', ''clearrecents'', ''open'']
     @ (if os e = MacOS then [''about'', ''welcome'', ''options''] else [])"

fun actionTriggeredLoop ::
  "app \<Rightarrow> QAction \<Rightarrow> string \<Rightarrow> string list \<Rightarrow> (error + call list) option" where
  "actionTriggeredLoop ap triggeredAction key [] = None"
| "actionTriggeredLoop ap triggeredAction key (actionName # rest) =
     (if key = actionName then Some (actionTriggered2 ap triggeredAction None)
      else actionTriggeredLoop ap triggeredAction key rest)"

definition actionTriggered :: "env \<Rightarrow> app \<Rightarrow> QAction \<Rightarrow> error + call list" where
  "actionTriggered e ap triggeredAction =
     (case toStringList (data triggeredAction) of
        [] \<Rightarrow> Inl EmptyList
      | key # _ \<Rightarrow>
          (case actionTriggeredLoop ap triggeredAction key (windowlessActions e) of
             Some result \<Rightarrow> result
           | None \<Rightarrow>
               (let shouldBeEmpty = (prefix ''recent'' key \<or> key = ''openurl'')
                in case getMainWindow ap shouldBeEmpty of
                     Some window \<Rightarrow> actionTriggered2 ap triggeredAction (Some window)
                   | None \<Rightarrow> Inr [])))"

section \<open>The dispatch table\<close>

text \<open>
  The calls that the keys stand for, as a table to compare the two chains of
  \<open>actionTriggered\<close> with: \<open>windowCalls\<close> for a key that is dispatched with a window,
  \<open>nullWindowCalls\<close> for a key that is dispatched with a null window.
\<close>

definition windowCalls :: "(string \<times> (nat \<Rightarrow> call)) list" where
  "windowCalls =
     [(''openwithother'', showOpenWithDialog),
      (''openurl'', \<lambda>w. OnWindow w pickUrl),
      (''opencontainingfolder'', \<lambda>w. OnWindow w openContainingFolder),
      (''showfileinfo'', \<lambda>w. OnWindow w showFileInfo),
      (''delete'', \<lambda>w. OnWindow w askDeleteFile),
      (''undo'', \<lambda>w. OnWindow w undoDelete),
      (''copy'', \<lambda>w. OnWindow w copy),
      (''paste'', \<lambda>w. OnWindow w paste),
      (''rename'', \<lambda>w. OnWindow w rename),
      (''zoomin'', \<lambda>w. OnWindow w zoomIn),
      (''zoomout'', \<lambda>w. OnWindow w zoomOut),
      (''resetzoom'', \<lambda>w. OnWindow w resetZoom),
      (''originalsize'', \<lambda>w. OnWindow w originalSize),
      (''rotateright'', \<lambda>w. OnWindow w rotateRight),
      (''rotateleft'', \<lambda>w. OnWindow w rotateLeft),
      (''mirror'', \<lambda>w. OnWindow w mirror),
      (''flip'', \<lambda>w. OnWindow w flip),
      (''fullscreen'', \<lambda>w. OnWindow w toggleFullScreen),
      (''firstfile'', \<lambda>w. OnWindow w firstFile),
      (''previousfile'', \<lambda>w. OnWindow w previousFile),
      (''nextfile'', \<lambda>w. OnWindow w nextFile),
      (''lastfile'', \<lambda>w. OnWindow w lastFile),
      (''saveframeas'', \<lambda>w. OnWindow w saveFrameAs),
      (''pause'', \<lambda>w. OnWindow w pause),
      (''nextframe'', \<lambda>w. OnWindow w nextFrame),
      (''decreasespeed'', \<lambda>w. OnWindow w decreaseSpeed),
      (''resetspeed'', \<lambda>w. OnWindow w resetSpeed),
      (''increasespeed'', \<lambda>w. OnWindow w increaseSpeed),
      (''slideshow'', \<lambda>w. OnWindow w toggleSlideshow),
      (''options'', \<lambda>w. openOptionsDialog (Some w)),
      (''about'', \<lambda>w. openAboutDialog (Some w)),
      (''welcome'', \<lambda>w. openWelcomeDialog (Some w))]"

definition nullWindowCalls :: "(string \<times> call list) list" where
  "nullWindowCalls =
     [(''newwindow'', [newWindow]),
      (''quit'', [quit]),
      (''clearrecents'', [managerClearRecentsList]),
      (''open'', [pickFile None]),
      (''about'', [openAboutDialog None]),
      (''welcome'', [openWelcomeDialog None]),
      (''options'', [openOptionsDialog None])]"

section \<open>Well-formed clone libraries\<close>

text \<open>
  Every pointer in the clone library comes from a \<open>new\<close> of its own: the pointers are
  allocated and no pointer is tracked twice.
\<close>

definition clonePointersValid :: "state \<Rightarrow> bool" where
  "clonePointersValid s =
     (list_all (\<lambda>kv. snd kv < length (actions s)) (actionCloneLibrary s) \<and>
      distinct (map snd (actionCloneLibrary s)))"

section \<open>Lists that start with a given entry\<close>

text \<open>A list that starts with the entry \<open>r\<close> and has no two equal entries.\<close>

definition frontOf :: "SRecent \<Rightarrow> SRecent list \<Rightarrow> bool" where
  "frontOf r xs = (xs \<noteq> [] \<and> hd xs = r \<and> distinct xs)"

section \<open>A concrete environment and state\<close>

text \<open>
  A small world to run the manager in: three image files exist on disk, strings are
  not translated, the setting \<open>saverecents\<close> is on, and a recents entry is stored as the
  list of its two strings. The state has recents saving enabled, one canonical action
  and two slot actions of a recents menu.
\<close>

definition exampleEnv :: env where
  "exampleEnv =
     \<lparr>os = OtherUnix,
      fileExists = (\<lambda>p. p = ''/a.png'' \<or> p = ''/b.png'' \<or> p = ''/c.png''),
      tr = (\<lambda>s. s),
      fileIcon = FileTypeIcon,
      getBoolean = (\<lambda>key. True),
      recentsListToVariantList = map (\<lambda>r. VStringList [fileName r, filePath r]),
      variantListToRecentsList =
        map (\<lambda>v. \<lparr>fileName = hd (toStringList v), filePath = last (toStringList v)\<rparr>)\<rparr>"

definition recentOf :: "string \<Rightarrow> SRecent" where
  "recentOf p = \<lparr>fileName = tl p, filePath = p\<rparr>"

definition exampleState :: state where
  "exampleState =
     \<lparr>recentsList = [],
      recentsListMaxLength = 10,
      openWithMaxLength = 10,
      isSaveRecentsEnabled = True,
      recentsSaveTimer = \<lparr>singleShot = True, interval = 500, isActive = False\<rparr>,
      actionLibrary = [(''zoomin'', 0)],
      actionCloneLibrary = [(''recent1'', 2), (''recent0'', 1)],
      menuCloneLibrary = [],
      actions =
        [newQAction\<lparr>data := VStringList [''zoomin'', ''disable''], isEnabled := False\<rparr>,
         newQAction\<lparr>data := VString ''recent0'', isVisible := False\<rparr>,
         newQAction\<lparr>data := VString ''recent1'', isVisible := False\<rparr>],
      settings = Map.empty,
      emitted = []\<rparr>"

text \<open>
  An application with two main windows: window 2 has no image open, window 1 has one.
\<close>

definition exampleApp :: app where
  "exampleApp =
     \<lparr>getMainWindow = (\<lambda>shouldBeEmpty. if shouldBeEmpty then Some 2 else Some 1),
      activeWindow = Some 1,
      topLevelWindows = [1, 2],
      cocoaLoaded = False\<rparr>"

text \<open>
  The same world with the setting \<open>saverecents\<close> off, and a state whose store holds one
  entry of a file that exists; its \<open>isSaveRecentsEnabled\<close> is true.
\<close>

definition savingOffEnv :: env where
  "savingOffEnv = exampleEnv\<lparr>getBoolean := (\<lambda>key. False)\<rparr>"

definition storedState :: state where
  "storedState =
     exampleState\<lparr>settings :=
       [''recents/recentFiles'' \<mapsto> VList [VStringList [''a.png'', ''/a.png'']]]\<rparr>"

section \<open>What the audit leaves in the list\<close>

lemma evictLoop_take: "evictLoop m xs = take m xs"
proof (induction m xs rule: evictLoop.induct)
  case (1 m xs)
  show ?case
  proof (cases "length xs > m")
    case True
    with 1 have "evictLoop m (butlast xs) = take m (butlast xs)" by simp
    also from True have "\<dots> = take m xs" by (simp add: take_butlast)
    finally show ?thesis using True by (subst evictLoop.simps) simp
  next
    case False
    then show ?thesis by (subst evictLoop.simps) simp
  qed
qed

lemma updateRecentsLoop_frame:
  "recentsList (updateRecentsLoop e i s) = recentsList s \<and>
   recentsListMaxLength (updateRecentsLoop e i s) = recentsListMaxLength s \<and>
   openWithMaxLength (updateRecentsLoop e i s) = openWithMaxLength s \<and>
   isSaveRecentsEnabled (updateRecentsLoop e i s) = isSaveRecentsEnabled s \<and>
   recentsSaveTimer (updateRecentsLoop e i s) = recentsSaveTimer s \<and>
   actionLibrary (updateRecentsLoop e i s) = actionLibrary s \<and>
   actionCloneLibrary (updateRecentsLoop e i s) = actionCloneLibrary s \<and>
   menuCloneLibrary (updateRecentsLoop e i s) = menuCloneLibrary s \<and>
   settings (updateRecentsLoop e i s) = settings s \<and>
   emitted (updateRecentsLoop e i s) = emitted s"
proof (induction e i s rule: updateRecentsLoop.induct)
  case (1 e i s)
  show ?case
  proof (cases "i < recentsListMaxLength s")
    case True
    with 1 show ?thesis by (subst (1 2 3 4 5 6 7 8 9 10) updateRecentsLoop.simps) simp
  next
    case False
    then show ?thesis by (subst (1 2 3 4 5 6 7 8 9 10) updateRecentsLoop.simps) simp
  qed
qed

lemma updateRecentsMenu_frame:
  "recentsList (updateRecentsMenu e s) = recentsList s"
  "recentsListMaxLength (updateRecentsMenu e s) = recentsListMaxLength s"
  "openWithMaxLength (updateRecentsMenu e s) = openWithMaxLength s"
  "isSaveRecentsEnabled (updateRecentsMenu e s) = isSaveRecentsEnabled s"
  "recentsSaveTimer (updateRecentsMenu e s) = recentsSaveTimer s"
  "actionLibrary (updateRecentsMenu e s) = actionLibrary s"
  "actionCloneLibrary (updateRecentsMenu e s) = actionCloneLibrary s"
  "menuCloneLibrary (updateRecentsMenu e s) = menuCloneLibrary s"
  "settings (updateRecentsMenu e s) = settings s"
  "emitted (updateRecentsMenu e s) = emitted s @ [recentsMenuUpdated]"
  by (simp_all add: updateRecentsMenu_def Let_def updateRecentsLoop_frame)

lemma auditLoop_Nil: "auditLoop f i [] = []"
  by (subst auditLoop.simps) simp

lemma auditRecentsList_recentsList:
  "recentsList (auditRecentsList e s) =
     take (recentsListMaxLength s)
       (auditLoop (fileExists e) 0 (if isSaveRecentsEnabled s then recentsList s else []))"
  by (simp add: auditRecentsList_def Let_def updateRecentsMenu_frame evictLoop_take)

lemma auditRecentsList_frame:
  "recentsListMaxLength (auditRecentsList e s) = recentsListMaxLength s"
  "openWithMaxLength (auditRecentsList e s) = openWithMaxLength s"
  "isSaveRecentsEnabled (auditRecentsList e s) = isSaveRecentsEnabled s"
  "recentsSaveTimer (auditRecentsList e s) = recentsSaveTimer s"
  "actionLibrary (auditRecentsList e s) = actionLibrary s"
  "actionCloneLibrary (auditRecentsList e s) = actionCloneLibrary s"
  "menuCloneLibrary (auditRecentsList e s) = menuCloneLibrary s"
  "settings (auditRecentsList e s) = settings s"
  "emitted (auditRecentsList e s) = emitted s @ [recentsMenuUpdated]"
  by (simp_all add: auditRecentsList_def Let_def updateRecentsMenu_frame)

lemma loadRecentsList_frame:
  "recentsSaveTimer (loadRecentsList e s) = recentsSaveTimer s"
  "recentsListMaxLength (loadRecentsList e s) = recentsListMaxLength s"
  "settings (loadRecentsList e s) = settings s"
  by (simp_all add: loadRecentsList_def Let_def auditRecentsList_frame)

lemma fold_libraryInsert_frame:
  "recentsListMaxLength (fold libraryInsert kas s) = recentsListMaxLength s"
  by (induction kas arbitrary: s) (simp_all add: libraryInsert_def)

lemma setDataValues_frame:
  "recentsListMaxLength (setDataValues keys s) = recentsListMaxLength s"
  by (induction keys arbitrary: s) (simp_all split: option.splits)

lemma initializeActionLibrary_frame:
  "recentsListMaxLength (initializeActionLibrary e s) = recentsListMaxLength s"
  by (simp add: initializeActionLibrary_def Let_def setDataValues_frame fold_libraryInsert_frame)

lemma ActionManager_recentsListMaxLength: "recentsListMaxLength (ActionManager e s0) = 10"
  by (simp add: ActionManager_def Let_def loadRecentsList_frame initializeActionLibrary_frame)

lemma ActionManager_recentsSaveTimer:
  "recentsSaveTimer (ActionManager e s0) = \<lparr>singleShot = True, interval = 500, isActive = False\<rparr>"
  by (simp add: ActionManager_def Let_def loadRecentsList_frame)

text \<open>
  Claim C1, on the code: the audit is meant to leave only entries whose file exists on
  disk, but after \<open>removeAt(i)\<close> the loop moves on to \<open>i + 1\<close>, so the entry that slid
  into position \<open>i\<close> is never checked. With two entries whose files are both gone, the
  second one is still in the list when \<open>auditRecentsList\<close> returns.
\<close>

theorem auditRecentsList_keeps_missing_file:
  "recentsList (auditRecentsList exampleEnv
      (exampleState\<lparr>recentsList := [recentOf ''/gone1.png'', recentOf ''/gone2.png'']\<rparr>))
     = [recentOf ''/gone2.png''] \<and>
   \<not> fileExists exampleEnv (filePath (recentOf ''/gone2.png''))"
  by code_simp

text \<open>
  Claim C2, on the code: the audit is meant to leave no two equal entries, but after
  \<open>removeAt(i2)\<close> the inner loop moves on to \<open>i2 + 1\<close>, and the outer loop passes over
  an entry after a removal before it. With a missing file in front of three equal
  entries (whose file exists), two equal entries are left when \<open>auditRecentsList\<close>
  returns.
\<close>

theorem auditRecentsList_keeps_duplicate:
  "recentsList (auditRecentsList exampleEnv
      (exampleState\<lparr>recentsList := [recentOf ''/gone.png'', recentOf ''/a.png'',
                                      recentOf ''/a.png'', recentOf ''/a.png'']\<rparr>))
     = [recentOf ''/a.png'', recentOf ''/a.png'']"
  by code_simp

text \<open>
  Claim C3: after \<open>auditRecentsList\<close> the list is no longer than \<open>recentsListMaxLength\<close>;
  it is the first \<open>recentsListMaxLength\<close> entries of what the two loops left, so the
  excess is taken from the tail; the audit does not change the bound, and the
  constructor sets it to 10.
\<close>

theorem auditRecentsList_bounded:
  "length (recentsList (auditRecentsList e s)) \<le> recentsListMaxLength (auditRecentsList e s) \<and>
   recentsList (auditRecentsList e s) =
     take (recentsListMaxLength s)
       (auditLoop (fileExists e) 0 (if isSaveRecentsEnabled s then recentsList s else [])) \<and>
   recentsListMaxLength (auditRecentsList e s) = recentsListMaxLength s \<and>
   recentsListMaxLength (ActionManager e s0) = 10"
  by (simp add: auditRecentsList_recentsList auditRecentsList_frame
      ActionManager_recentsListMaxLength)

text \<open>
  Claim C4, on the code: adding a file that exists, with recents saving enabled, is meant
  to leave its entry at the front. The stored list below has a missing file and three
  equal entries; \<open>loadRecentsList\<close> leaves two of the equal entries in the list (the
  defect of C2), and adding the same file again then removes all three of its entries:
  the first pass removes one and skips the next, and the pass for the entry that was
  skipped removes the new front entry and then the copy before itself.
\<close>

theorem addFileToRecentsList_loses_entry:
  "(let stored = VList [VStringList [''a.png'', ''/a.png''],
                        VStringList [''gone.png'', ''/gone.png''],
                        VStringList [''b.png'', ''/b.png''],
                        VStringList [''b.png'', ''/b.png''],
                        VStringList [''b.png'', ''/b.png'']];
        s1 = loadRecentsList exampleEnv
               (exampleState\<lparr>settings := [''recents/recentFiles'' \<mapsto> stored]\<rparr>);
        s2 = addFileToRecentsList exampleEnv
               \<lparr>fi_fileName = ''b.png'', fi_filePath = ''/b.png''\<rparr> s1
    in recentsList s1 = [recentOf ''/a.png'', recentOf ''/b.png'', recentOf ''/b.png''] \<and>
       isSaveRecentsEnabled s1 \<and>
       recentsList s2 = [recentOf ''/a.png'']) \<and>
   fileExists exampleEnv ''/b.png''"
  by code_simp

section \<open>The audit on lists without equal entries\<close>

lemma nth_removeAt:
  "k < length xs - 1 \<Longrightarrow> removeAt j xs ! k = (if k < j then xs ! k else xs ! Suc k)"
  by (auto simp: removeAt_def nth_append min_def)

lemma length_removeAt: "j < length xs \<Longrightarrow> length (removeAt j xs) = length xs - 1"
  by (simp add: removeAt_def)

lemma distinct_removeAt: "distinct xs \<Longrightarrow> distinct (removeAt j xs)"
proof -
  assume d: "distinct xs"
  have "xs = take j xs @ drop j xs" by simp
  with d have "distinct (take j xs @ drop j xs)" by simp
  then have "set (take j xs) \<inter> set (drop j xs) = {}" by (simp only: distinct_append)
  moreover have "set (drop (Suc j) xs) \<subseteq> set (drop j xs)"
    by (rule set_drop_subset_set_drop) simp
  ultimately have "set (take j xs) \<inter> set (drop (Suc j) xs) = {}" by blast
  with d show ?thesis by (simp add: removeAt_def)
qed

lemma nth_notin_removeAt:
  assumes "distinct xs" "j < length xs"
  shows "xs ! j \<notin> set (removeAt j xs)"
proof -
  from assms(2) have "xs = take j xs @ xs ! j # drop (Suc j) xs" by (rule id_take_nth_drop)
  with assms(1) have "distinct (take j xs @ xs ! j # drop (Suc j) xs)" by simp
  then show ?thesis by (simp add: removeAt_def)
qed

lemma removeAt_Cons_Suc: "removeAt (Suc j) (x # xs) = x # removeAt j xs"
  by (simp add: removeAt_def)

lemma checkDuplicates_id:
  "(\<And>k. i2 \<le> k \<Longrightarrow> k < length xs \<Longrightarrow> k \<noteq> i \<Longrightarrow> xs ! k \<noteq> recent) \<Longrightarrow>
   checkDuplicates recent i i2 xs = xs"
proof (induction recent i i2 xs rule: checkDuplicates.induct)
  case (1 recent i i2 xs)
  show ?case
  proof (cases "i2 < length xs")
    case False
    then show ?thesis by (subst checkDuplicates.simps) simp
  next
    case True
    show ?thesis
    proof (cases "i = i2")
      case True
      with \<open>i2 < length xs\<close> have "checkDuplicates recent i (Suc i2) xs = xs"
        using "1.prems" by (intro "1.IH"(1)) simp_all
      with True \<open>i2 < length xs\<close> show ?thesis by (subst checkDuplicates.simps) simp
    next
      case False
      with \<open>i2 < length xs\<close> "1.prems" [of i2] have ne: "recent \<noteq> xs ! i2" by auto
      with False \<open>i2 < length xs\<close> have "checkDuplicates recent i (Suc i2) xs = xs"
        using "1.prems" by (intro "1.IH"(3)) simp_all
      with False ne \<open>i2 < length xs\<close> show ?thesis by (subst checkDuplicates.simps) simp
    qed
  qed
qed

lemma checkDuplicates_one:
  "i2 \<le> j \<Longrightarrow> j < length xs \<Longrightarrow> i < j \<Longrightarrow> xs ! j = recent \<Longrightarrow>
   (\<And>k. i2 \<le> k \<Longrightarrow> k < length xs \<Longrightarrow> k \<noteq> i \<Longrightarrow> k \<noteq> j \<Longrightarrow> xs ! k \<noteq> recent) \<Longrightarrow>
   checkDuplicates recent i i2 xs = removeAt j xs"
proof (induction recent i i2 xs rule: checkDuplicates.induct)
  case (1 recent i i2 xs)
  from "1.prems" have in_range: "i2 < length xs" by simp
  show ?case
  proof (cases "i = i2")
    case True
    with "1.prems" have "Suc i2 \<le> j" by simp
    with True in_range have "checkDuplicates recent i (Suc i2) xs = removeAt j xs"
      using "1.prems" by (intro "1.IH"(1)) simp_all
    with True in_range show ?thesis by (subst checkDuplicates.simps) simp
  next
    case ne: False
    show ?thesis
    proof (cases "recent = xs ! i2")
      case True
      with "1.prems"(5) [of i2] in_range ne have j: "i2 = j" by auto
      have "checkDuplicates recent i (Suc j) (removeAt j xs) = removeAt j xs"
      proof (rule checkDuplicates_id)
        fix k
        assume k: "Suc j \<le> k" "k < length (removeAt j xs)" "k \<noteq> i"
        with "1.prems"(2) have k': "Suc k < length xs" by (simp add: length_removeAt)
        with k have "removeAt j xs ! k = xs ! Suc k" by (simp add: nth_removeAt)
        moreover from k k' "1.prems"(1,3) have "xs ! Suc k \<noteq> recent"
          by (intro "1.prems"(5)) simp_all
        ultimately show "removeAt j xs ! k \<noteq> recent" by simp
      qed
      with True ne in_range j show ?thesis by (subst checkDuplicates.simps) simp
    next
      case False
      with "1.prems" have "i2 \<noteq> j" by auto
      with "1.prems" have "Suc i2 \<le> j" by simp
      with ne False in_range have "checkDuplicates recent i (Suc i2) xs = removeAt j xs"
        using "1.prems" by (intro "1.IH"(3)) simp_all
      with ne False in_range show ?thesis by (subst checkDuplicates.simps) simp
    qed
  qed
qed

lemma set_removeAt_subset: "set (removeAt j xs) \<subseteq> set xs"
  by (auto simp: removeAt_def dest: in_set_takeD in_set_dropD)

lemma frontOf_removeAt:
  assumes "frontOf r xs" "0 < j"
  shows "frontOf r (removeAt j xs)"
proof -
  from assms(1) obtain ys where xs: "xs = r # ys" and d: "distinct ys" and r: "r \<notin> set ys"
    by (cases xs) (auto simp: frontOf_def)
  from assms(2) obtain j' where j: "j = Suc j'" by (cases j) simp_all
  from r set_removeAt_subset [of j' ys] have "r \<notin> set (removeAt j' ys)" by blast
  with d show ?thesis
    by (simp add: xs j removeAt_Cons_Suc frontOf_def distinct_removeAt)
qed

lemma auditStep_distinct:
  assumes "distinct xs" "i < length xs"
  shows "auditStep f i xs = (if \<not> f (filePath (xs ! i)) then removeAt i xs else xs)"
proof -
  let ?xs1 = "if \<not> f (filePath (xs ! i)) then removeAt i xs else xs"
  have "checkDuplicates (xs ! i) i 0 ?xs1 = ?xs1"
  proof (rule checkDuplicates_id)
    fix k
    assume k: "k < length ?xs1" "k \<noteq> i"
    show "?xs1 ! k \<noteq> xs ! i"
    proof (cases "f (filePath (xs ! i))")
      case True
      with k assms show ?thesis by (simp add: nth_eq_iff_index_eq)
    next
      case False
      with k have "?xs1 ! k \<in> set (removeAt i xs)" by simp
      with nth_notin_removeAt [OF assms] show ?thesis by metis
    qed
  qed
  then show ?thesis by (simp add: auditStep_def Let_def)
qed

lemma auditLoop_frontOf:
  "0 < i \<Longrightarrow> frontOf r xs \<Longrightarrow> frontOf r (auditLoop f i xs)"
proof (induction f i xs rule: auditLoop.induct)
  case (1 f i xs)
  show ?case
  proof (cases "i < length xs")
    case True
    from "1.prems" have d: "distinct xs" by (simp add: frontOf_def)
    have "frontOf r (auditStep f i xs)"
      using "1.prems" by (simp add: auditStep_distinct [OF d True] frontOf_removeAt)
    with True have "frontOf r (auditLoop f (Suc i) (auditStep f i xs))"
      by (intro "1.IH") simp_all
    with True show ?thesis by (subst auditLoop.simps) simp
  next
    case False
    with "1.prems" show ?thesis by (subst auditLoop.simps) simp
  qed
qed

lemma length_auditLoop_le: "length (auditLoop f i xs) \<le> length xs"
proof (induction f i xs rule: auditLoop.induct)
  case (1 f i xs)
  show ?case
  proof (cases "i < length xs")
    case True
    with 1 have "length (auditLoop f (Suc i) (auditStep f i xs)) \<le> length (auditStep f i xs)"
      by simp
    also have "\<dots> \<le> length xs" by (rule length_auditStep_le)
    finally show ?thesis using True by (subst auditLoop.simps) simp
  next
    case False
    then show ?thesis by (subst auditLoop.simps) simp
  qed
qed

lemma auditStep_front:
  assumes "distinct S" "f (filePath r)"
  shows "frontOf r (auditStep f 0 (r # S)) \<and>
         (r \<in> set S \<longrightarrow> length (auditStep f 0 (r # S)) = length S)"
proof (cases "r \<in> set S")
  case False
  have "checkDuplicates r 0 0 (r # S) = r # S"
  proof (rule checkDuplicates_id)
    fix k
    assume "k < length (r # S)" "k \<noteq> 0"
    then have "(r # S) ! k \<in> set S" by (cases k) simp_all
    with False show "(r # S) ! k \<noteq> r" by metis
  qed
  with assms False show ?thesis by (simp add: auditStep_def frontOf_def)
next
  case True
  then obtain j where j: "j < length S" "S ! j = r" by (auto simp: in_set_conv_nth)
  have "checkDuplicates r 0 0 (r # S) = removeAt (Suc j) (r # S)"
  proof (rule checkDuplicates_one)
    fix k
    assume k: "k < length (r # S)" "k \<noteq> 0" "k \<noteq> Suc j"
    then obtain k' where k': "k = Suc k'" by (cases k) simp_all
    with k have "k' < length S" "k' \<noteq> j" by simp_all
    with nth_eq_iff_index_eq [OF assms(1), of k' j] j(1) have "S ! k' \<noteq> S ! j" by blast
    with k' j(2) show "(r # S) ! k \<noteq> r" by simp
  qed (use j in simp_all)
  then have eq: "auditStep f 0 (r # S) = r # removeAt j S"
    using assms(2) by (simp add: auditStep_def removeAt_Cons_Suc)
  from j assms(1) have "r \<notin> set (removeAt j S)" using nth_notin_removeAt [of S j] by simp
  moreover from j(1) have "Suc (length (removeAt j S)) = length S"
    by (simp add: length_removeAt)
  ultimately show ?thesis
    using assms(1) by (simp add: eq frontOf_def distinct_removeAt)
qed

text \<open>
  On a list without equal entries the defect of the duplicate check does not show:
  adding a file that exists, with saving enabled and room for at least one entry, leaves
  its entry at the front of a list without equal entries, and the list does not grow
  when the entry was in it before.
\<close>

lemma addFileToRecentsList_front_distinct:
  assumes "distinct (recentsList s)"
    and "fileExists e (fi_filePath file)"
    and "isSaveRecentsEnabled s"
    and "0 < recentsListMaxLength s"
  shows "frontOf \<lparr>fileName = fi_fileName file, filePath = fi_filePath file\<rparr>
           (recentsList (addFileToRecentsList e file s)) \<and>
         (\<lparr>fileName = fi_fileName file, filePath = fi_filePath file\<rparr> \<in> set (recentsList s) \<longrightarrow>
            length (recentsList (addFileToRecentsList e file s)) \<le> length (recentsList s))"
proof -
  let ?r = "\<lparr>fileName = fi_fileName file, filePath = fi_filePath file\<rparr>"
  let ?S = "recentsList s"
  let ?step = "auditStep (fileExists e) 0 (?r # ?S)"
  let ?loop = "auditLoop (fileExists e) (Suc 0) ?step"
  have list: "recentsList (addFileToRecentsList e file s) = take (recentsListMaxLength s) ?loop"
    using assms(3)
    by (simp add: addFileToRecentsList_def Let_def auditRecentsList_recentsList
        auditLoop.simps [of _ 0])
  from assms(1,2) have step: "frontOf ?r ?step"
    and len: "?r \<in> set ?S \<longrightarrow> length ?step = length ?S"
    using auditStep_front [of ?S "fileExists e" ?r] by simp_all
  from step have loop: "frontOf ?r ?loop" by (intro auditLoop_frontOf) simp_all
  with assms(4) have "frontOf ?r (take (recentsListMaxLength s) ?loop)"
    by (cases ?loop; cases "recentsListMaxLength s") (auto simp: frontOf_def dest: in_set_takeD)
  moreover have "length (take (recentsListMaxLength s) ?loop) \<le> length ?step"
    using length_auditLoop_le [of "fileExists e" "Suc 0" ?step] by simp
  ultimately show ?thesis using len unfolding list by auto
qed

text \<open>
  The two loops leave a list alone that has no equal entries and no missing file.
\<close>

lemma auditLoop_clean:
  "distinct xs \<Longrightarrow> list_all (\<lambda>x. f (filePath x)) xs \<Longrightarrow> auditLoop f i xs = xs"
proof (induction f i xs rule: auditLoop.induct)
  case (1 f i xs)
  show ?case
  proof (cases "i < length xs")
    case True
    with "1.prems" have "f (filePath (xs ! i))" by (simp add: list_all_length)
    with "1.prems"(1) True have step: "auditStep f i xs = xs" by (simp add: auditStep_distinct)
    with True "1.prems" have "auditLoop f (Suc i) (auditStep f i xs) = auditStep f i xs"
      by (intro "1.IH") simp_all
    with True step show ?thesis by (subst auditLoop.simps) simp
  next
    case False
    then show ?thesis by (subst auditLoop.simps) simp
  qed
qed

section \<open>Saving, clearing and cloning\<close>

lemma saveRecentsList_frame:
  "recentsList (saveRecentsList e s) = recentsList (auditRecentsList e s)"
  "recentsSaveTimer (saveRecentsList e s) = recentsSaveTimer s"
  "isSaveRecentsEnabled (saveRecentsList e s) = isSaveRecentsEnabled s"
  "settings (saveRecentsList e s) =
     (settings s)(''recents/recentFiles'' \<mapsto>
        VList (recentsListToVariantList e (recentsList (auditRecentsList e s))))"
  by (simp_all add: saveRecentsList_def Let_def auditRecentsList_frame)

lemma addFileToRecentsList_frame:
  "settings (addFileToRecentsList e file s) = settings s"
  "recentsSaveTimer (addFileToRecentsList e file s) = (recentsSaveTimer s)\<lparr>isActive := True\<rparr>"
  "isSaveRecentsEnabled (addFileToRecentsList e file s) = isSaveRecentsEnabled s"
  by (simp_all add: addFileToRecentsList_def Let_def auditRecentsList_frame start_def)

text \<open>
  Claim C10: \<open>clearRecentsList\<close> empties the list and the store holds the emptied list
  when the call returns: the call is \<open>saveRecentsList\<close> on the emptied list, and it
  leaves the save timer as it was. \<open>addFileToRecentsList\<close>, in contrast, returns with
  the store unchanged.
\<close>

theorem clearRecentsList_saves_immediately:
  "recentsList (clearRecentsList e s) = [] \<and>
   settings (clearRecentsList e s) =
     (settings s)(''recents/recentFiles'' \<mapsto> VList (recentsListToVariantList e [])) \<and>
   recentsSaveTimer (clearRecentsList e s) = recentsSaveTimer s \<and>
   clearRecentsList e s = saveRecentsList e (s\<lparr>recentsList := []\<rparr>) \<and>
   settings (addFileToRecentsList e file s) = settings s"
  by (simp add: clearRecentsList_def saveRecentsList_frame auditRecentsList_recentsList
      auditLoop_Nil addFileToRecentsList_frame)

text \<open>
  Claim C5: \<open>addFileToRecentsList\<close> leaves the settings store as it was and returns
  with the save timer active; the constructor makes that timer single-shot with an
  interval of 500 ms; when the timer fires after the call, \<open>saveRecentsList\<close> runs
  (the single-shot timer having stopped) and the store then holds the stored form of
  the list under \<open>recentFiles\<close> in the group \<open>recents\<close>.
\<close>

theorem addFileToRecentsList_defers_saving:
  "settings (addFileToRecentsList e file s) = settings s \<and>
   recentsSaveTimer (addFileToRecentsList e file s) = (recentsSaveTimer s)\<lparr>isActive := True\<rparr> \<and>
   recentsSaveTimer (ActionManager e s0) = \<lparr>singleShot = True, interval = 500, isActive = False\<rparr> \<and>
   recentsSaveTimerTimeout e (addFileToRecentsList e file s) =
     saveRecentsList e
       ((addFileToRecentsList e file s)
          \<lparr>recentsSaveTimer := (recentsSaveTimer s)\<lparr>isActive := \<not> singleShot (recentsSaveTimer s)\<rparr>\<rparr>) \<and>
   settings (recentsSaveTimerTimeout e (addFileToRecentsList e file s)) ''recents/recentFiles'' =
     Some (VList (recentsListToVariantList e
       (recentsList (recentsSaveTimerTimeout e (addFileToRecentsList e file s)))))"
  by (simp add: addFileToRecentsList_frame ActionManager_recentsSaveTimer
      recentsSaveTimerTimeout_def saveRecentsList_frame)

lemma settingsUpdated_disabled:
  assumes "\<not> getBoolean e ''saverecents''"
  shows "settingsUpdated e s =
     clearRecentsList e
       (s\<lparr>isSaveRecentsEnabled := False,
           actions := setVisibleAll (values_of ''recents'' (menuCloneLibrary s)) False (actions s)\<rparr>)"
  using assms by (simp add: settingsUpdated_def Let_def)

lemma fold_libraryInsert_settings:
  "isSaveRecentsEnabled (fold libraryInsert kas s) = isSaveRecentsEnabled s \<and>
   settings (fold libraryInsert kas s) = settings s \<and>
   recentsSaveTimer (fold libraryInsert kas s) = recentsSaveTimer s"
  by (induction kas arbitrary: s) (simp_all add: libraryInsert_def)

lemma setDataValues_settings:
  "isSaveRecentsEnabled (setDataValues keys s) = isSaveRecentsEnabled s \<and>
   settings (setDataValues keys s) = settings s \<and>
   recentsSaveTimer (setDataValues keys s) = recentsSaveTimer s"
  by (induction keys arbitrary: s) (simp_all split: option.splits)

lemma initializeActionLibrary_settings:
  "isSaveRecentsEnabled (initializeActionLibrary e s) = isSaveRecentsEnabled s"
  "settings (initializeActionLibrary e s) = settings s"
  by (simp_all add: initializeActionLibrary_def Let_def setDataValues_settings
      fold_libraryInsert_settings)

text \<open>
  The list the constructor leaves is the audit of the stored list under the value that
  \<open>isSaveRecentsEnabled\<close> comes with: the constructor does not assign the member and
  does not read the setting.
\<close>

lemma ActionManager_recentsList:
  "recentsList (ActionManager e s0) =
     take 10 (auditLoop (fileExists e) 0
       (if isSaveRecentsEnabled s0
        then variantListToRecentsList e (toList (settingsValue s0 ''recents/recentFiles''))
        else []))"
  by (simp add: ActionManager_def Let_def loadRecentsList_def auditRecentsList_recentsList
      initializeActionLibrary_frame initializeActionLibrary_settings settingsValue_def)

lemma settingsUpdated_flag:
  "isSaveRecentsEnabled (settingsUpdated e s) = getBoolean e ''saverecents''"
  by (simp add: settingsUpdated_def Let_def clearRecentsList_def saveRecentsList_frame)

text \<open>
  Claim C9 as stated, on the code: the audit does not read the setting \<open>saverecents\<close>
  but the member \<open>isSaveRecentsEnabled\<close>, which only \<open>settingsUpdated\<close> assigns. With
  the setting off and the member true, the list is not cleared: the constructor, which
  loads and audits the stored list without assigning the member, keeps the stored
  entry, and so does a call of \<open>auditRecentsList\<close>.
\<close>

theorem saving_disabled_keeps_list:
  "\<not> getBoolean savingOffEnv ''saverecents'' \<and>
   isSaveRecentsEnabled storedState \<and>
   recentsList (ActionManager savingOffEnv storedState) = [recentOf ''/a.png''] \<and>
   recentsList (auditRecentsList savingOffEnv
       (exampleState\<lparr>recentsList := [recentOf ''/a.png'']\<rparr>)) = [recentOf ''/a.png'']"
  by code_simp

text \<open>
  Claim C9, amended: with the member \<open>isSaveRecentsEnabled\<close> false, the list is empty
  after \<open>auditRecentsList\<close>, hence after \<open>addFileToRecentsList\<close>, \<open>saveRecentsList\<close> and
  a \<open>loadRecentsList\<close> that is not held back by the running save timer; and when the
  setting \<open>saverecents\<close> is off, \<open>settingsUpdated\<close> turns the member off, hides the
  recents menus and calls \<open>clearRecentsList\<close>, so the list is empty and the emptied
  list is in the store. After \<open>settingsUpdated\<close> the member has the value of the
  setting.
\<close>

theorem saving_disabled_clears:
  "(\<not> isSaveRecentsEnabled s \<longrightarrow>
      recentsList (auditRecentsList e s) = [] \<and>
      recentsList (addFileToRecentsList e file s) = [] \<and>
      recentsList (saveRecentsList e s) = [] \<and>
      (\<not> isActive (recentsSaveTimer s) \<longrightarrow> recentsList (loadRecentsList e s) = [])) \<and>
   (\<not> getBoolean e ''saverecents'' \<longrightarrow>
      \<not> isSaveRecentsEnabled (settingsUpdated e s) \<and>
      recentsList (settingsUpdated e s) = [] \<and>
      settings (settingsUpdated e s) =
        (settings s)(''recents/recentFiles'' \<mapsto> VList (recentsListToVariantList e [])) \<and>
      settingsUpdated e s =
        clearRecentsList e
          (s\<lparr>isSaveRecentsEnabled := False,
              actions := setVisibleAll (values_of ''recents'' (menuCloneLibrary s)) False
                           (actions s)\<rparr>)) \<and>
   isSaveRecentsEnabled (settingsUpdated e s) = getBoolean e ''saverecents''"
proof (intro conjI impI)
  assume off: "\<not> isSaveRecentsEnabled s"
  then show "recentsList (auditRecentsList e s) = []"
    by (simp add: auditRecentsList_recentsList auditLoop_Nil)
  from off show "recentsList (addFileToRecentsList e file s) = []"
    by (simp add: addFileToRecentsList_def Let_def auditRecentsList_recentsList auditLoop_Nil)
  from off show "recentsList (saveRecentsList e s) = []"
    by (simp add: saveRecentsList_frame auditRecentsList_recentsList auditLoop_Nil)
  assume "\<not> isActive (recentsSaveTimer s)"
  with off show "recentsList (loadRecentsList e s) = []"
    by (simp add: loadRecentsList_def Let_def auditRecentsList_recentsList auditLoop_Nil)
next
  assume off: "\<not> getBoolean e ''saverecents''"
  note eq = settingsUpdated_disabled [OF off, of s]
  show "\<not> isSaveRecentsEnabled (settingsUpdated e s)"
    unfolding eq by (simp add: clearRecentsList_def saveRecentsList_frame)
  show "recentsList (settingsUpdated e s) = []"
    unfolding eq
    by (simp add: clearRecentsList_def saveRecentsList_frame auditRecentsList_recentsList
        auditLoop_Nil)
  show "settings (settingsUpdated e s) =
      (settings s)(''recents/recentFiles'' \<mapsto> VList (recentsListToVariantList e []))"
    unfolding eq
    by (simp add: clearRecentsList_def saveRecentsList_frame auditRecentsList_recentsList
        auditLoop_Nil)
  show "settingsUpdated e s =
      clearRecentsList e
        (s\<lparr>isSaveRecentsEnabled := False,
            actions := setVisibleAll (values_of ''recents'' (menuCloneLibrary s)) False
                         (actions s)\<rparr>)"
    by (rule eq)
next
  show "isSaveRecentsEnabled (settingsUpdated e s) = getBoolean e ''saverecents''"
    by (rule settingsUpdated_flag)
qed

theorem saving_disabled_clears_witness:
  "(let e = exampleEnv\<lparr>getBoolean := (\<lambda>key. False)\<rparr>;
        s = exampleState\<lparr>isSaveRecentsEnabled := False, recentsList := [recentOf ''/a.png'']\<rparr>;
        s' = exampleState\<lparr>recentsList := [recentOf ''/a.png'']\<rparr>;
        file = \<lparr>fi_fileName = ''b.png'', fi_filePath = ''/b.png''\<rparr>
    in \<not> isSaveRecentsEnabled s \<and> \<not> isActive (recentsSaveTimer s) \<and>
       \<not> getBoolean e ''saverecents'' \<and>
       recentsList (auditRecentsList e s) = [] \<and>
       recentsList (addFileToRecentsList e file s) = [] \<and>
       recentsList (saveRecentsList e s) = [] \<and>
       recentsList (loadRecentsList e s) = [] \<and>
       isSaveRecentsEnabled s' \<and>
       \<not> isSaveRecentsEnabled (settingsUpdated e s') \<and>
       recentsList (settingsUpdated e s') = [] \<and>
       settings (settingsUpdated e s') ''recents/recentFiles'' = Some (VList []))"
proof -
  define e where "e = exampleEnv\<lparr>getBoolean := (\<lambda>key. False)\<rparr>"
  define s where
    "s = exampleState\<lparr>isSaveRecentsEnabled := False, recentsList := [recentOf ''/a.png'']\<rparr>"
  define s' where "s' = exampleState\<lparr>recentsList := [recentOf ''/a.png'']\<rparr>"
  define fi where "fi = \<lparr>fi_fileName = ''b.png'', fi_filePath = ''/b.png''\<rparr>"
  have h1: "\<not> isSaveRecentsEnabled s" by (simp add: s_def)
  have h2: "\<not> isActive (recentsSaveTimer s)" by (simp add: s_def exampleState_def)
  have h3: "\<not> getBoolean e ''saverecents''" by (simp add: e_def)
  have h4: "isSaveRecentsEnabled s'" by (simp add: s'_def exampleState_def)
  have h5: "recentsListToVariantList e [] = []" by (simp add: e_def exampleEnv_def)
  note off = saving_disabled_clears [of s e fi, THEN conjunct1, rule_format, OF h1]
  note upd = saving_disabled_clears [of s' e fi, THEN conjunct2, THEN conjunct1, rule_format,
      OF h3]
  from off h2 have a: "recentsList (auditRecentsList e s) = []"
    and b: "recentsList (addFileToRecentsList e fi s) = []"
    and c: "recentsList (saveRecentsList e s) = []"
    and d: "recentsList (loadRecentsList e s) = []"
    by blast+
  from upd have k: "\<not> isSaveRecentsEnabled (settingsUpdated e s')"
    and l: "recentsList (settingsUpdated e s') = []"
    and m: "settings (settingsUpdated e s') =
      (settings s')(''recents/recentFiles'' \<mapsto> VList (recentsListToVariantList e []))"
    by blast+
  from m h5 have n: "settings (settingsUpdated e s') ''recents/recentFiles'' = Some (VList [])"
    by simp
  from h1 h2 h3 h4 a b c d k l n show ?thesis
    unfolding Let_def e_def [symmetric] s_def [symmetric] s'_def [symmetric] fi_def [symmetric]
    by blast
qed

text \<open>
  Claim C6: for a key of the action library, \<open>cloneAction\<close> returns the pointer to a
  newly allocated action (the store grows by this one action and keeps all others),
  whose icon, data, text, menu role, enabled state, shortcuts and visibility are those
  of the canonical action, and the clone library has the new pointer in front of the
  key's values; for a key that is not in the library it returns the null pointer and
  changes nothing.
\<close>

theorem cloneAction_copies:
  "(map_of (actionLibrary s) key = Some p \<longrightarrow>
      (let r = cloneAction key s;
           newAction = length (actions s);
           c = actions (snd r) ! newAction;
           a = actions s ! p
       in fst r = Some newAction \<and>
          length (actions (snd r)) = Suc (length (actions s)) \<and>
          take (length (actions s)) (actions (snd r)) = actions s \<and>
          icon c = icon a \<and> data c = data a \<and> actionText c = actionText a \<and>
          menuRole c = menuRole a \<and> isEnabled c = isEnabled a \<and>
          shortcuts c = shortcuts a \<and> isVisible c = isVisible a \<and>
          actionCloneLibrary (snd r) = (key, newAction) # actionCloneLibrary s \<and>
          values_of key (actionCloneLibrary (snd r)) =
            newAction # values_of key (actionCloneLibrary s))) \<and>
   (map_of (actionLibrary s) key = None \<longrightarrow> cloneAction key s = (None, s))"
  by (simp add: cloneAction_def getAction_def Let_def insert_multi_def values_of_def)

theorem cloneAction_copies_witness:
  "map_of (actionLibrary exampleState) ''zoomin'' = Some 0 \<and>
   fst (cloneAction ''zoomin'' exampleState) = Some 3 \<and>
   data (actions (snd (cloneAction ''zoomin'' exampleState)) ! 3) =
     VStringList [''zoomin'', ''disable''] \<and>
   \<not> isEnabled (actions (snd (cloneAction ''zoomin'' exampleState)) ! 3) \<and>
   values_of ''zoomin'' (actionCloneLibrary (snd (cloneAction ''zoomin'' exampleState))) = [3] \<and>
   map_of (actionLibrary exampleState) ''zoom'' = None \<and>
   cloneAction ''zoom'' exampleState = (None, exampleState)"
proof -
  have present: "map_of (actionLibrary exampleState) ''zoomin'' = Some 0"
    by (simp add: exampleState_def)
  have absent: "map_of (actionLibrary exampleState) ''zoom'' = None"
    by (simp add: exampleState_def)
  have len: "length (actions exampleState) = 3" by (simp add: exampleState_def)
  have a0: "actions exampleState ! 0 =
      newQAction\<lparr>data := VStringList [''zoomin'', ''disable''], isEnabled := False\<rparr>"
    by (simp add: exampleState_def)
  have vals: "values_of ''zoomin'' (actionCloneLibrary exampleState) = []"
    by (simp add: exampleState_def values_of_def)
  note t1 = cloneAction_copies [of exampleState "''zoomin''" 0, THEN conjunct1, rule_format,
      OF present, unfolded Let_def len a0 vals]
  note t2 = cloneAction_copies [of exampleState "''zoom''" 0, THEN conjunct2, rule_format,
      OF absent]
  from t1 have r1: "fst (cloneAction ''zoomin'' exampleState) = Some 3"
    by blast
  from t1 have "data (actions (snd (cloneAction ''zoomin'' exampleState)) ! 3) =
      data (newQAction\<lparr>data := VStringList [''zoomin'', ''disable''], isEnabled := False\<rparr>)"
    by blast
  then have r2: "data (actions (snd (cloneAction ''zoomin'' exampleState)) ! 3) =
      VStringList [''zoomin'', ''disable'']"
    by simp
  from t1 have "isEnabled (actions (snd (cloneAction ''zoomin'' exampleState)) ! 3) =
      isEnabled (newQAction\<lparr>data := VStringList [''zoomin'', ''disable''], isEnabled := False\<rparr>)"
    by blast
  then have r3: "\<not> isEnabled (actions (snd (cloneAction ''zoomin'' exampleState)) ! 3)"
    by simp
  from t1 have r4:
    "values_of ''zoomin'' (actionCloneLibrary (snd (cloneAction ''zoomin'' exampleState))) = [3]"
    by blast
  from r1 r2 r3 r4 t2 present absent show ?thesis by blast
qed

section \<open>The recents menus after an update\<close>

lemma digit_inj: "a < 10 \<Longrightarrow> b < 10 \<Longrightarrow> digit a = digit b \<Longrightarrow> a = b"
proof -
  assume a: "a < 10" and b: "b < 10" and eq: "digit a = digit b"
  have d: "distinct ''0123456789''" by simp
  have l: "length ''0123456789'' = 10" by simp
  from a b l have "(''0123456789'' ! a = ''0123456789'' ! b) = (a = b)"
    by (intro nth_eq_iff_index_eq [OF d]) simp_all
  with eq show "a = b" by (simp add: digit_def)
qed

lemma number_last: "number n = (if n < 10 then [] else number (n div 10)) @ [digit (n mod 10)]"
  by (subst number.simps) simp

lemma number_inj: "number n = number m \<Longrightarrow> n = m"
proof (induction n arbitrary: m rule: less_induct)
  case (less n)
  from less.prems have eq:
    "(if n < 10 then [] else number (n div 10)) @ [digit (n mod 10)] =
     (if m < 10 then [] else number (m div 10)) @ [digit (m mod 10)]"
    using number_last [of n] number_last [of m] by simp
  then have d: "digit (n mod 10) = digit (m mod 10)"
    and b: "(if n < 10 then [] else number (n div 10)) = (if m < 10 then [] else number (m div 10))"
    by simp_all
  from d have m10: "n mod 10 = m mod 10" by (intro digit_inj) simp_all
  have ne: "number k \<noteq> []" for k by (subst number_last) simp
  have ne': "[] \<noteq> number k" for k by (subst number_last) simp
  show ?case
  proof (cases "n < 10")
    case True
    with b ne' [of "m div 10"] have "m < 10" by (cases "m < 10") simp_all
    with True m10 show ?thesis by simp
  next
    case False
    with b ne [of "n div 10"] have mb: "\<not> m < 10" by (cases "m < 10") simp_all
    with False b have "number (n div 10) = number (m div 10)" by simp
    moreover from False have "n div 10 < n" by simp
    ultimately have "n div 10 = m div 10" by (rule less.IH [rotated])
    with m10 have "n div 10 * 10 + n mod 10 = m div 10 * 10 + m mod 10" by simp
    then show ?thesis by (simp only: div_mult_mod_eq)
  qed
qed

lemma length_updateRecentActions [simp]:
  "length (updateRecentActions e r i ps h) = length h"
  by (induction ps arbitrary: h) simp_all

lemma updateRecentActions_other:
  "p \<notin> set ps \<Longrightarrow> updateRecentActions e r i ps h ! p = h ! p"
  by (induction ps arbitrary: h) auto

lemma updateRecentActions_slot:
  "p \<in> set ps \<Longrightarrow> p < length h \<Longrightarrow>
   isVisible (updateRecentActions e r i ps h ! p) = (i < length r) \<and>
   actionText (updateRecentActions e r i ps h ! p) =
     (if i < length r then fileName (r ! i) else tr e ''Empty'')"
proof (induction ps arbitrary: h)
  case Nil
  then show ?case by simp
next
  case (Cons q ps)
  show ?case
  proof (cases "p \<in> set ps")
    case True
    with Cons.IH [of "h[q := updateRecentAction e r i (h ! q)]"] Cons.prems show ?thesis
      by simp
  next
    case False
    with Cons.prems have "p = q" by simp
    with False Cons.prems show ?thesis
      by (simp add: updateRecentActions_other updateRecentAction_def Let_def)
  qed
qed

lemma length_updateRecentsLoop [simp]:
  "length (actions (updateRecentsLoop e i s)) = length (actions s)"
proof (induction e i s rule: updateRecentsLoop.induct)
  case (1 e i s)
  then show ?case by (subst updateRecentsLoop.simps) simp
qed

lemma updateRecentsLoop_untouched:
  "(\<And>k. i \<le> k \<Longrightarrow> k < recentsListMaxLength s \<Longrightarrow>
      p \<notin> set (values_of (''recent'' @ number k) (actionCloneLibrary s))) \<Longrightarrow>
   actions (updateRecentsLoop e i s) ! p = actions s ! p"
proof (induction e i s rule: updateRecentsLoop.induct)
  case (1 e i s)
  show ?case
  proof (cases "i < recentsListMaxLength s")
    case True
    let ?s' = "s\<lparr>actions := updateRecentActions e (recentsList s) i
                (values_of (''recent'' @ number i) (actionCloneLibrary s)) (actions s)\<rparr>"
    have "actions (updateRecentsLoop e (Suc i) ?s') ! p = actions ?s' ! p"
      using True "1.prems" by (intro "1.IH") simp_all
    also have "\<dots> = actions s ! p"
      using True "1.prems" [of i] by (simp add: updateRecentActions_other)
    finally show ?thesis using True by (subst updateRecentsLoop.simps) simp
  next
    case False
    then show ?thesis by (subst updateRecentsLoop.simps) simp
  qed
qed

lemma updateRecentsLoop_slot:
  "i \<le> j \<Longrightarrow> j < recentsListMaxLength s \<Longrightarrow> p < length (actions s) \<Longrightarrow>
   p \<in> set (values_of (''recent'' @ number j) (actionCloneLibrary s)) \<Longrightarrow>
   (\<And>k. k \<noteq> j \<Longrightarrow> p \<notin> set (values_of (''recent'' @ number k) (actionCloneLibrary s))) \<Longrightarrow>
   isVisible (actions (updateRecentsLoop e i s) ! p) = (j < length (recentsList s)) \<and>
   actionText (actions (updateRecentsLoop e i s) ! p) =
     (if j < length (recentsList s) then fileName (recentsList s ! j) else tr e ''Empty'')"
proof (induction e i s rule: updateRecentsLoop.induct)
  case (1 e i s)
  let ?s' = "s\<lparr>actions := updateRecentActions e (recentsList s) i
              (values_of (''recent'' @ number i) (actionCloneLibrary s)) (actions s)\<rparr>"
  from "1.prems" have lt: "i < recentsListMaxLength s" by simp
  have unf: "updateRecentsLoop e i s = updateRecentsLoop e (Suc i) ?s'"
    using lt by (subst updateRecentsLoop.simps) simp
  show ?case
  proof (cases "i = j")
    case True
    have "actions (updateRecentsLoop e (Suc i) ?s') ! p = actions ?s' ! p"
      using "1.prems"(5) True by (intro updateRecentsLoop_untouched) simp
    then show ?thesis
      unfolding unf using True "1.prems"(3,4)
      by (simp add: updateRecentActions_slot)
  next
    case False
    with "1.prems" have "Suc i \<le> j" by simp
    with lt "1.prems" have
      "isVisible (actions (updateRecentsLoop e (Suc i) ?s') ! p) = (j < length (recentsList ?s')) \<and>
       actionText (actions (updateRecentsLoop e (Suc i) ?s') ! p) =
         (if j < length (recentsList ?s') then fileName (recentsList ?s' ! j) else tr e ''Empty'')"
      by (intro "1.IH") simp_all
    then show ?thesis unfolding unf by simp
  qed
qed

lemma values_of_mem: "p \<in> set (values_of key lib) \<longleftrightarrow> (key, p) \<in> set lib"
  by (force simp: values_of_def)

lemma clone_key_unique:
  assumes "distinct (map snd lib)" "(a, p) \<in> set lib" "(b, p) \<in> set lib"
  shows "a = b"
proof -
  from assms(1) have "inj_on snd (set lib)" by (simp add: distinct_map)
  from inj_onD [OF this, of "(a, p)" "(b, p)"] assms(2,3) show ?thesis by simp
qed

text \<open>
  Claim C8: in a state whose clone library holds valid, pairwise different pointers,
  \<open>updateRecentsMenu\<close> leaves every action tracked under the key of slot \<open>i\<close> (for
  \<open>i\<close> below \<open>recentsListMaxLength\<close>) visible exactly when \<open>i\<close> is below the smaller of
  the list's length and \<open>recentsListMaxLength\<close>, with the \<open>fileName\<close> of entry \<open>i\<close> as
  its text in that case and the text \<open>tr("Empty")\<close> otherwise, and it emits
  \<open>recentsMenuUpdated\<close> once, after the updates. This holds for each pointer tracked
  under the slot's key, that is, for every clone of the slot action.
\<close>

theorem updateRecentsMenu_slots:
  assumes "clonePointersValid s"
    and "i < recentsListMaxLength s"
    and "p \<in> set (values_of (''recent'' @ number i) (actionCloneLibrary s))"
  shows "isVisible (actions (updateRecentsMenu e s) ! p)
           = (i < min (length (recentsList s)) (recentsListMaxLength s)) \<and>
         actionText (actions (updateRecentsMenu e s) ! p)
           = (if i < min (length (recentsList s)) (recentsListMaxLength s)
              then fileName (recentsList s ! i) else tr e ''Empty'') \<and>
         emitted (updateRecentsMenu e s) = emitted s @ [recentsMenuUpdated]"
proof -
  from assms(3) have mem: "(''recent'' @ number i, p) \<in> set (actionCloneLibrary s)"
    by (simp add: values_of_mem)
  with assms(1) have valid: "p < length (actions s)"
    by (auto simp: clonePointersValid_def list_all_iff)
  have other: "p \<notin> set (values_of (''recent'' @ number k) (actionCloneLibrary s))" if "k \<noteq> i" for k
  proof
    assume "p \<in> set (values_of (''recent'' @ number k) (actionCloneLibrary s))"
    then have mem': "(''recent'' @ number k, p) \<in> set (actionCloneLibrary s)"
      by (simp add: values_of_mem)
    from assms(1) have "distinct (map snd (actionCloneLibrary s))"
      by (simp add: clonePointersValid_def)
    then have "''recent'' @ number k = ''recent'' @ number i"
      using mem' mem by (rule clone_key_unique)
    then have "k = i" by (simp add: number_inj)
    with that show False by simp
  qed
  have "isVisible (actions (updateRecentsLoop e 0 s) ! p) = (i < length (recentsList s)) \<and>
     actionText (actions (updateRecentsLoop e 0 s) ! p) =
       (if i < length (recentsList s) then fileName (recentsList s ! i) else tr e ''Empty'')"
    using assms(2,3) valid other by (intro updateRecentsLoop_slot) simp_all
  with assms(2) show ?thesis
    by (simp add: updateRecentsMenu_def Let_def updateRecentsLoop_frame)
qed


lemma clonePointersValid_cong:
  "length (actions s') = length (actions s) \<Longrightarrow> actionCloneLibrary s' = actionCloneLibrary s \<Longrightarrow>
   clonePointersValid s' = clonePointersValid s"
  by (simp add: clonePointersValid_def)

lemma clonePointersValid_track:
  assumes "clonePointersValid s"
  shows "clonePointersValid
     (s\<lparr>actions := actions s @ [a],
        actionCloneLibrary := insert_multi k (length (actions s)) (actionCloneLibrary s)\<rparr>)"
proof -
  from assms have old: "\<forall>kv \<in> set (actionCloneLibrary s). snd kv < length (actions s)"
    and dist: "distinct (map snd (actionCloneLibrary s))"
    by (simp_all add: clonePointersValid_def list_all_iff)
  from old have fresh: "length (actions s) \<notin> snd ` set (actionCloneLibrary s)" by auto
  from old have "\<forall>kv \<in> set (actionCloneLibrary s). snd kv < Suc (length (actions s))"
    by (auto intro: less_SucI)
  with dist fresh show ?thesis
    by (simp add: clonePointersValid_def list_all_iff insert_multi_def)
qed

lemma clonePointersValid_alloc:
  assumes "clonePointersValid s"
  shows "clonePointersValid (s\<lparr>actions := actions s @ [a]\<rparr>)"
proof -
  from assms have "\<forall>kv \<in> set (actionCloneLibrary s). snd kv < length (actions s)"
    by (simp add: clonePointersValid_def list_all_iff)
  then have "\<forall>kv \<in> set (actionCloneLibrary s). snd kv < Suc (length (actions s))"
    by (auto intro: less_SucI)
  with assms show ?thesis by (simp add: clonePointersValid_def list_all_iff)
qed

lemma clonePointersValid_cloneAction:
  "clonePointersValid s \<Longrightarrow> clonePointersValid (snd (cloneAction key s))"
  by (cases "getAction key s") (simp_all add: cloneAction_def Let_def clonePointersValid_track)

lemma clonePointersValid_buildRecentSlots:
  "clonePointersValid s \<Longrightarrow> clonePointersValid (buildRecentSlots e i s)"
proof (induction e i s rule: buildRecentSlots.induct)
  case (1 e i s)
  show ?case
  proof (cases "i < recentsListMaxLength s")
    case True
    let ?s' = "s\<lparr>actions := actions s @ [newRecentAction e i],
                  actionCloneLibrary :=
                    insert_multi (hd (toStringList (data (newRecentAction e i))))
                      (length (actions s)) (actionCloneLibrary s)\<rparr>"
    from "1.prems" have "clonePointersValid ?s'" by (rule clonePointersValid_track)
    with True have "clonePointersValid (buildRecentSlots e (Suc i) ?s')"
      by (intro "1.IH") (simp_all add: Let_def)
    with True show ?thesis by (subst buildRecentSlots.simps) (simp add: Let_def)
  next
    case False
    with "1.prems" show ?thesis by (subst buildRecentSlots.simps) simp
  qed
qed

lemma length_setVisibleAll [simp]: "length (setVisibleAll ps b h) = length h"
  by (induction ps arbitrary: h) simp_all

lemma updateRecentsMenu_length [simp]:
  "length (actions (updateRecentsMenu e s)) = length (actions s)"
  by (simp add: updateRecentsMenu_def Let_def)

lemma auditRecentsList_length [simp]:
  "length (actions (auditRecentsList e s)) = length (actions s)"
  by (simp add: auditRecentsList_def Let_def)

lemma clonePointersValid_auditRecentsList:
  "clonePointersValid (auditRecentsList e s) = clonePointersValid s"
  by (rule clonePointersValid_cong) (simp_all add: auditRecentsList_frame)

lemma clonePointersValid_saveRecentsList:
  "clonePointersValid (saveRecentsList e s) = clonePointersValid s"
  by (simp add: saveRecentsList_def Let_def clonePointersValid_def auditRecentsList_frame)

lemma clonePointersValid_loadRecentsList:
  "clonePointersValid (loadRecentsList e s) = clonePointersValid s"
  by (simp add: loadRecentsList_def Let_def clonePointersValid_def auditRecentsList_frame)

lemma clonePointersValid_addFileToRecentsList:
  "clonePointersValid (addFileToRecentsList e file s) = clonePointersValid s"
  by (simp add: addFileToRecentsList_def Let_def clonePointersValid_def auditRecentsList_frame)

lemma clonePointersValid_clearRecentsList:
  "clonePointersValid (clearRecentsList e s) = clonePointersValid s"
proof -
  have "clonePointersValid (clearRecentsList e s) = clonePointersValid (s\<lparr>recentsList := []\<rparr>)"
    by (simp add: clearRecentsList_def clonePointersValid_saveRecentsList)
  also have "\<dots> = clonePointersValid s" by (simp add: clonePointersValid_def)
  finally show ?thesis .
qed

lemma clonePointersValid_settingsUpdated:
  "clonePointersValid (settingsUpdated e s) = clonePointersValid s"
proof -
  define s2 where "s2 = s\<lparr>isSaveRecentsEnabled := getBoolean e ''saverecents'',
      actions := setVisibleAll (values_of ''recents'' (menuCloneLibrary s))
                   (getBoolean e ''saverecents'') (actions s)\<rparr>"
  have "settingsUpdated e s = (if \<not> getBoolean e ''saverecents'' then clearRecentsList e s2 else s2)"
    by (simp add: settingsUpdated_def Let_def s2_def)
  then have "clonePointersValid (settingsUpdated e s) = clonePointersValid s2"
    by (simp add: clonePointersValid_clearRecentsList)
  also have "\<dots> = clonePointersValid s" by (simp add: clonePointersValid_def s2_def)
  finally show ?thesis .
qed

lemma clonePointersValid_updateRecentsMenu:
  "clonePointersValid (updateRecentsMenu e s) = clonePointersValid s"
  by (rule clonePointersValid_cong) (simp_all add: updateRecentsMenu_frame)

lemma clonePointersValid_refresh:
  assumes "clonePointersValid t"
  shows "clonePointersValid (settingsUpdated e (updateRecentsMenu e (t\<lparr>menuCloneLibrary := x\<rparr>)))"
proof -
  from assms have "clonePointersValid (t\<lparr>menuCloneLibrary := x\<rparr>)"
    by (simp add: clonePointersValid_def)
  then show ?thesis
    by (simp add: clonePointersValid_settingsUpdated clonePointersValid_updateRecentsMenu)
qed

lemma clonePointersValid_buildRecentsMenu:
  assumes "clonePointersValid s"
  shows "clonePointersValid (snd (buildRecentsMenu e includeClearAction s))"
proof -
  have slots: "clonePointersValid (buildRecentSlots e 0 (s\<lparr>actions := actions s @ [m]\<rparr>))" for m
    using assms by (intro clonePointersValid_buildRecentSlots clonePointersValid_alloc)
  show ?thesis
    unfolding buildRecentsMenu_def Let_def snd_conv
    by (rule clonePointersValid_refresh) (simp add: slots clonePointersValid_cloneAction)
qed

lemma fold_libraryInsert_clones:
  "actionCloneLibrary (fold libraryInsert kas s) = actionCloneLibrary s"
  by (induction kas arbitrary: s) (simp_all add: libraryInsert_def)

lemma setDataValues_clones:
  "actionCloneLibrary (setDataValues keys s) = actionCloneLibrary s"
  by (induction keys arbitrary: s) (simp_all split: option.splits)

lemma clonePointersValid_ActionManager: "clonePointersValid (ActionManager e s0)"
proof -
  have "actionCloneLibrary (ActionManager e s0) = []"
    by (simp add: ActionManager_def Let_def loadRecentsList_def auditRecentsList_frame
        initializeActionLibrary_def setDataValues_clones fold_libraryInsert_clones)
  then show ?thesis by (simp add: clonePointersValid_def)
qed

theorem updateRecentsMenu_slots_witness:
  "(let s = exampleState\<lparr>recentsList := [recentOf ''/a.png'']\<rparr>;
        s' = updateRecentsMenu exampleEnv s
    in clonePointersValid s \<and>
       0 < recentsListMaxLength s \<and> 1 < recentsListMaxLength s \<and>
       1 \<in> set (values_of (''recent'' @ number 0) (actionCloneLibrary s)) \<and>
       2 \<in> set (values_of (''recent'' @ number 1) (actionCloneLibrary s)) \<and>
       isVisible (actions s' ! 1) \<and> actionText (actions s' ! 1) = ''a.png'' \<and>
       \<not> isVisible (actions s' ! 2) \<and> actionText (actions s' ! 2) = ''Empty'' \<and>
       emitted s' = [recentsMenuUpdated])"
proof -
  define s where "s = exampleState\<lparr>recentsList := [recentOf ''/a.png'']\<rparr>"
  have n0: "number 0 = ''0''" and n1: "number (Suc 0) = ''1''"
    by (simp_all add: number.simps digit_def)
  have v: "clonePointersValid s"
    by (simp add: s_def exampleState_def clonePointersValid_def)
  have b0: "0 < recentsListMaxLength s" and b1: "1 < recentsListMaxLength s"
    by (simp_all add: s_def exampleState_def)
  have m0: "1 \<in> set (values_of (''recent'' @ number 0) (actionCloneLibrary s))"
    and m1: "2 \<in> set (values_of (''recent'' @ number 1) (actionCloneLibrary s))"
    by (simp_all add: n0 n1 s_def exampleState_def values_of_def)
  have r: "recentsList s = [recentOf ''/a.png'']" and em: "emitted s = []"
    and mx: "recentsListMaxLength s = 10"
    by (simp_all add: s_def exampleState_def)
  have t: "tr exampleEnv ''Empty'' = ''Empty''" by (simp add: exampleEnv_def)
  from updateRecentsMenu_slots [OF v b0 m0, of exampleEnv]
  have "isVisible (actions (updateRecentsMenu exampleEnv s) ! 1)"
    and "actionText (actions (updateRecentsMenu exampleEnv s) ! 1) = ''a.png''"
    and "emitted (updateRecentsMenu exampleEnv s) = [recentsMenuUpdated]"
    by (simp_all add: r em mx recentOf_def)
  moreover from updateRecentsMenu_slots [OF v b1 m1, of exampleEnv]
  have "\<not> isVisible (actions (updateRecentsMenu exampleEnv s) ! 2)"
    and "actionText (actions (updateRecentsMenu exampleEnv s) ! 2) = ''Empty''"
    by (simp_all add: r em mx t)
  ultimately show ?thesis
    unfolding Let_def s_def [symmetric] using v b0 b1 m0 m1 by blast
qed

section \<open>The dispatch of triggered actions\<close>

lemma actionTriggeredLoop_eq:
  "actionTriggeredLoop ap a key names =
     (if key \<in> set names then Some (actionTriggered2 ap a None) else None)"
  by (induction names) auto

lemma windowCalls_all:
  "list_all (\<lambda>kc. (case nullWindowConditions ap (fst kc) (Some w) of
                       Inl err \<Rightarrow> Inl err
                     | Inr calls \<Rightarrow>
                         (case windowConditions a (fst kc) w of
                            Inl err \<Rightarrow> Inl err
                          | Inr calls2 \<Rightarrow> Inr (calls @ calls2))) = Inr [snd kc w])
     windowCalls"
  by (simp add: windowCalls_def nullWindowConditions_def windowConditions_def)


lemma nullWindowCalls_all:
  "list_all (\<lambda>kc. nullWindowConditions ap (fst kc) None = Inr (snd kc)) nullWindowCalls"
  by (simp add: nullWindowCalls_def nullWindowConditions_def)

lemma actionTriggered2_window:
  assumes "toStringList (data a) = key # rest"
  shows "actionTriggered2 ap a (Some w) =
     (case nullWindowConditions ap key (Some w) of
        Inl err \<Rightarrow> Inl err
      | Inr calls \<Rightarrow>
          (case windowConditions a key w of
             Inl err \<Rightarrow> Inl err
           | Inr calls2 \<Rightarrow> Inr (calls @ calls2)))"
  using assms by (simp add: actionTriggered2_def split: sum.splits)

lemma actionTriggered2_null:
  assumes "toStringList (data a) = key # rest"
  shows "actionTriggered2 ap a None = nullWindowConditions ap key None"
  using assms by (simp add: actionTriggered2_def split: sum.splits)

lemma recent_dispatch:
  assumes "prefix ''recent'' key"
  shows "nullWindowConditions ap key (Some w) = Inr []"
    and "windowConditions a key w = Inr [OnWindow w (openRecent (digitValue (last key)))]"
proof -
  from assms obtain zs where key: "key = ''recent'' @ zs" by (rule prefixE)
  show "nullWindowConditions ap key (Some w) = Inr []"
    unfolding key by (simp add: nullWindowConditions_def)
  from assms show "windowConditions a key w = Inr [OnWindow w (openRecent (digitValue (last key)))]"
    by (simp add: windowConditions_def)
qed

lemma openwith_dispatch:
  assumes "prefix ''openwith'' key" and "key \<noteq> ''openwithother''"
  shows "nullWindowConditions ap key (Some w) = Inr []"
    and "windowConditions a key w =
      (if 1 < length (toList (data a)) then Inr [OnWindow w (openWith (toList (data a) ! 1))]
       else Inl IndexOutOfRange)"
proof -
  from assms(1) obtain zs where key: "key = ''openwith'' @ zs" by (rule prefixE)
  show "nullWindowConditions ap key (Some w) = Inr []"
    unfolding key by (simp add: nullWindowConditions_def)
  have "\<not> prefix ''recent'' key" unfolding key by simp
  with assms show "windowConditions a key w =
      (if 1 < length (toList (data a)) then Inr [OnWindow w (openWith (toList (data a) ! 1))]
       else Inl IndexOutOfRange)"
    by (simp add: windowConditions_def Let_def)
qed

lemma closewindow_dispatch:
  assumes "toStringList (data a) = ''closewindow'' # rest"
  shows "actionTriggered2 ap a relevantWindow =
     (case activeWindow ap of
        None \<Rightarrow> Inl NullPointer
      | Some active \<Rightarrow>
          Inr ((if cocoaLoaded ap then [cocoaCloseWindow active] else [])
               @ [otherWindowClose active]))"
  using assms
  by (cases relevantWindow; cases "activeWindow ap")
     (simp_all add: actionTriggered2_def nullWindowConditions_def windowConditions_def)

lemma closeallwindows_dispatch:
  assumes "toStringList (data a) = ''closeallwindows'' # rest"
  shows "actionTriggered2 ap a relevantWindow =
     Inr (concat (map (\<lambda>window. (if cocoaLoaded ap then [cocoaCloseWindow window] else [])
                                 @ [otherWindowClose window])
                   (topLevelWindows ap)))"
  using assms
  by (cases relevantWindow)
     (simp_all add: actionTriggered2_def nullWindowConditions_def windowConditions_def)

lemma windowless_key_with_window:
  "toStringList (data a) = ''quit'' # rest \<Longrightarrow>
     actionTriggered2 ap a (Some w) = Inr [OnWindow w close, quit]"
  "toStringList (data a) = ''newwindow'' # rest \<Longrightarrow>
     actionTriggered2 ap a (Some w) = Inr [newWindow]"
  "toStringList (data a) = ''open'' # rest \<Longrightarrow>
     actionTriggered2 ap a (Some w) = Inr [pickFile (Some w)]"
  "toStringList (data a) = ''clearrecents'' # rest \<Longrightarrow>
     actionTriggered2 ap a (Some w) = Inr [managerClearRecentsList]"
  by (simp_all add: actionTriggered2_def nullWindowConditions_def windowConditions_def)

lemma other_key_null:
  assumes "key \<notin> fst ` set nullWindowCalls" "key \<noteq> ''closewindow''" "key \<noteq> ''closeallwindows''"
  shows "nullWindowConditions ap key relevantWindow = Inr []"
proof -
  from assms(1) have "key \<noteq> ''newwindow''" "key \<noteq> ''quit''" "key \<noteq> ''clearrecents''"
    "key \<noteq> ''open''" "key \<noteq> ''about''" "key \<noteq> ''welcome''" "key \<noteq> ''options''"
    by (simp_all add: nullWindowCalls_def)
  with assms(2,3) show ?thesis by (simp add: nullWindowConditions_def)
qed

lemma other_key_window:
  assumes "key \<notin> fst ` set windowCalls" "\<not> prefix ''recent'' key" "\<not> prefix ''openwith'' key"
  shows "windowConditions a key w = Inr []"
proof -
  from assms(1) have "list_all (\<lambda>k. key \<noteq> k) (map fst windowCalls)"
    by (auto simp: list_all_iff)
  then show ?thesis
    using assms(2,3) by (simp add: windowCalls_def windowConditions_def)
qed

text \<open>
  Claim C7: \<open>actionTriggered(triggeredAction)\<close> dispatches on the first string of the
  action's data. The keys that need no window are \<open>newwindow\<close>, \<open>quit\<close>,
  \<open>clearrecents\<close> and \<open>open\<close>, and on macOS also \<open>about\<close>, \<open>welcome\<close> and
  \<open>options\<close>; for such a key the result is that of the two-argument overload with a
  null window. For any other key a main window is requested, an empty one exactly when
  the key starts with \<open>recent\<close> or is \<open>openurl\<close>; nothing happens when there is none,
  and otherwise the two-argument overload runs with that window. What the two-argument
  overload does is fixed for every key. With a null window it makes the application
  call of \<open>nullWindowCalls\<close>. With a window it makes the call that \<open>windowCalls\<close> gives
  for the key, \<open>openRecent\<close> with the digit value of the key's last character for a
  key that starts with \<open>recent\<close>, \<open>openWith\<close> with the second element of the action's
  data for another key that starts with \<open>openwith\<close>; \<open>quit\<close> closes the window and
  quits, and \<open>newwindow\<close>, \<open>open\<close> and \<open>clearrecents\<close> make their application call.
  With or without a window, \<open>closewindow\<close> closes the active window (an error when
  there is none) and \<open>closeallwindows\<close> closes every top-level window, each after the
  Cocoa call when that is loaded. Any other key does nothing.
\<close>

theorem actionTriggered_dispatch:
  assumes "toStringList (data a) = key # rest"
  shows
    "set (windowlessActions e) =
       {''newwindow'', ''quit'', ''clearrecents'', ''open''}
       \<union> (if os e = MacOS then {''about'', ''welcome'', ''options''} else {}) \<and>
     (key \<in> set (windowlessActions e) \<longrightarrow>
        actionTriggered e ap a = actionTriggered2 ap a None) \<and>
     (key \<notin> set (windowlessActions e) \<longrightarrow>
        actionTriggered e ap a =
          (case getMainWindow ap (prefix ''recent'' key \<or> key = ''openurl'') of
             None \<Rightarrow> Inr []
           | Some window \<Rightarrow> actionTriggered2 ap a (Some window))) \<and>
     (\<forall>calls. (key, calls) \<in> set nullWindowCalls \<longrightarrow> actionTriggered2 ap a None = Inr calls) \<and>
     (\<forall>c. (key, c) \<in> set windowCalls \<longrightarrow> actionTriggered2 ap a (Some w) = Inr [c w]) \<and>
     (prefix ''recent'' key \<longrightarrow>
        actionTriggered2 ap a (Some w) = Inr [OnWindow w (openRecent (digitValue (last key)))]) \<and>
     (prefix ''openwith'' key \<and> key \<noteq> ''openwithother'' \<longrightarrow>
        actionTriggered2 ap a (Some w) =
          (if 1 < length (toList (data a))
           then Inr [OnWindow w (openWith (toList (data a) ! 1))]
           else Inl IndexOutOfRange)) \<and>
     (key = ''closewindow'' \<longrightarrow>
        actionTriggered2 ap a relevantWindow =
          (case activeWindow ap of
             None \<Rightarrow> Inl NullPointer
           | Some active \<Rightarrow>
               Inr ((if cocoaLoaded ap then [cocoaCloseWindow active] else [])
                    @ [otherWindowClose active]))) \<and>
     (key = ''closeallwindows'' \<longrightarrow>
        actionTriggered2 ap a relevantWindow =
          Inr (concat (map (\<lambda>window. (if cocoaLoaded ap then [cocoaCloseWindow window] else [])
                                      @ [otherWindowClose window])
                        (topLevelWindows ap)))) \<and>
     (key = ''quit'' \<longrightarrow> actionTriggered2 ap a (Some w) = Inr [OnWindow w close, quit]) \<and>
     (key = ''newwindow'' \<longrightarrow> actionTriggered2 ap a (Some w) = Inr [newWindow]) \<and>
     (key = ''open'' \<longrightarrow> actionTriggered2 ap a (Some w) = Inr [pickFile (Some w)]) \<and>
     (key = ''clearrecents'' \<longrightarrow>
        actionTriggered2 ap a (Some w) = Inr [managerClearRecentsList]) \<and>
     (key \<notin> fst ` set nullWindowCalls \<and> key \<noteq> ''closewindow'' \<and>
      key \<noteq> ''closeallwindows'' \<longrightarrow>
        actionTriggered2 ap a None = Inr []) \<and>
     (key \<notin> fst ` set windowCalls \<and>
      key \<notin> {''quit'', ''newwindow'', ''open'', ''clearrecents'', ''closewindow'',
               ''closeallwindows''} \<and>
      \<not> prefix ''recent'' key \<and> \<not> prefix ''openwith'' key \<longrightarrow>
        actionTriggered2 ap a (Some w) = Inr [])"
proof (intro conjI impI allI)
  show "set (windowlessActions e) =
       {''newwindow'', ''quit'', ''clearrecents'', ''open''}
       \<union> (if os e = MacOS then {''about'', ''welcome'', ''options''} else {})"
    by (auto simp: windowlessActions_def)
next
  assume "key \<in> set (windowlessActions e)"
  with assms show "actionTriggered e ap a = actionTriggered2 ap a None"
    by (simp add: actionTriggered_def actionTriggeredLoop_eq)
next
  assume "key \<notin> set (windowlessActions e)"
  with assms show "actionTriggered e ap a =
          (case getMainWindow ap (prefix ''recent'' key \<or> key = ''openurl'') of
             None \<Rightarrow> Inr []
           | Some window \<Rightarrow> actionTriggered2 ap a (Some window))"
    by (simp add: actionTriggered_def actionTriggeredLoop_eq Let_def split: option.splits)
next
  fix calls
  assume mem: "(key, calls) \<in> set nullWindowCalls"
  note all = nullWindowCalls_all [where ap = ap, unfolded list_all_iff]
  from bspec [OF all mem] have "nullWindowConditions ap key None = Inr calls"
    by (simp only: fst_conv snd_conv)
  then show "actionTriggered2 ap a None = Inr calls"
    by (simp add: actionTriggered2_null [OF assms])
next
  fix c
  assume mem: "(key, c) \<in> set windowCalls"
  note all = windowCalls_all [where ap = ap and w = w and a = a, unfolded list_all_iff]
  from bspec [OF all mem] show "actionTriggered2 ap a (Some w) = Inr [c w]"
    unfolding actionTriggered2_window [OF assms] by (simp only: fst_conv snd_conv)
next
  assume "prefix ''recent'' key"
  then show "actionTriggered2 ap a (Some w) =
      Inr [OnWindow w (openRecent (digitValue (last key)))]"
    by (simp add: actionTriggered2_window [OF assms] recent_dispatch)
next
  assume "prefix ''openwith'' key \<and> key \<noteq> ''openwithother''"
  then show "actionTriggered2 ap a (Some w) =
          (if 1 < length (toList (data a))
           then Inr [OnWindow w (openWith (toList (data a) ! 1))]
           else Inl IndexOutOfRange)"
    by (simp add: actionTriggered2_window [OF assms] openwith_dispatch)
next
  assume "key = ''closewindow''"
  with assms show "actionTriggered2 ap a relevantWindow =
          (case activeWindow ap of
             None \<Rightarrow> Inl NullPointer
           | Some active \<Rightarrow>
               Inr ((if cocoaLoaded ap then [cocoaCloseWindow active] else [])
                    @ [otherWindowClose active]))"
    by (simp add: closewindow_dispatch)
next
  assume "key = ''closeallwindows''"
  with assms show "actionTriggered2 ap a relevantWindow =
          Inr (concat (map (\<lambda>window. (if cocoaLoaded ap then [cocoaCloseWindow window] else [])
                                      @ [otherWindowClose window])
                        (topLevelWindows ap)))"
    by (simp add: closeallwindows_dispatch)
next
  assume "key = ''quit''"
  with assms show "actionTriggered2 ap a (Some w) = Inr [OnWindow w close, quit]"
    by (simp add: windowless_key_with_window)
next
  assume "key = ''newwindow''"
  with assms show "actionTriggered2 ap a (Some w) = Inr [newWindow]"
    by (simp add: windowless_key_with_window)
next
  assume "key = ''open''"
  with assms show "actionTriggered2 ap a (Some w) = Inr [pickFile (Some w)]"
    by (simp add: windowless_key_with_window)
next
  assume "key = ''clearrecents''"
  with assms show "actionTriggered2 ap a (Some w) = Inr [managerClearRecentsList]"
    by (simp add: windowless_key_with_window)
next
  assume "key \<notin> fst ` set nullWindowCalls \<and> key \<noteq> ''closewindow'' \<and>
      key \<noteq> ''closeallwindows''"
  then show "actionTriggered2 ap a None = Inr []"
    by (simp add: actionTriggered2_null [OF assms] other_key_null)
next
  assume other: "key \<notin> fst ` set windowCalls \<and>
      key \<notin> {''quit'', ''newwindow'', ''open'', ''clearrecents'', ''closewindow'',
               ''closeallwindows''} \<and>
      \<not> prefix ''recent'' key \<and> \<not> prefix ''openwith'' key"
  then have "key \<noteq> ''options''" "key \<noteq> ''about''" "key \<noteq> ''welcome''"
    by (simp_all add: windowCalls_def)
  with other have "key \<notin> fst ` set nullWindowCalls"
    by (simp add: nullWindowCalls_def)
  with other have "nullWindowConditions ap key (Some w) = Inr []"
    by (simp add: other_key_null)
  moreover from other have "windowConditions a key w = Inr []"
    by (simp add: other_key_window)
  ultimately show "actionTriggered2 ap a (Some w) = Inr []"
    by (simp add: actionTriggered2_window [OF assms])
qed

theorem actionTriggered_dispatch_witness:
  "toStringList (data (newQAction\<lparr>data := VStringList [''quit'']\<rparr>)) = [''quit''] \<and>
   actionTriggered exampleEnv exampleApp (newQAction\<lparr>data := VStringList [''quit'']\<rparr>)
     = Inr [quit] \<and>
   actionTriggered2 exampleApp (newQAction\<lparr>data := VStringList [''quit'']\<rparr>) (Some 1)
     = Inr [OnWindow 1 close, quit] \<and>
   toStringList (data (newQAction\<lparr>data := VStringList [''zoomin'', ''disable'']\<rparr>))
     = [''zoomin'', ''disable''] \<and>
   actionTriggered exampleEnv exampleApp
       (newQAction\<lparr>data := VStringList [''zoomin'', ''disable'']\<rparr>)
     = Inr [OnWindow 1 zoomIn] \<and>
   actionTriggered2 exampleApp (newQAction\<lparr>data := VStringList [''zoomin'', ''disable'']\<rparr>) None
     = Inr [] \<and>
   toStringList (data (newQAction\<lparr>data := VString ''recent3''\<rparr>)) = [''recent3''] \<and>
   actionTriggered exampleEnv exampleApp (newQAction\<lparr>data := VString ''recent3''\<rparr>)
     = Inr [OnWindow 2 (openRecent 3)] \<and>
   toStringList (data (newQAction\<lparr>data := VList [VString ''openwith0'', VOpenWithItem 5]\<rparr>))
     = [''openwith0'', ''''] \<and>
   actionTriggered exampleEnv exampleApp
       (newQAction\<lparr>data := VList [VString ''openwith0'', VOpenWithItem 5]\<rparr>)
     = Inr [OnWindow 1 (openWith (VOpenWithItem 5))] \<and>
   toStringList (data (newQAction\<lparr>data := VStringList [''closewindow'']\<rparr>))
     = [''closewindow''] \<and>
   actionTriggered exampleEnv exampleApp (newQAction\<lparr>data := VStringList [''closewindow'']\<rparr>)
     = Inr [otherWindowClose 1] \<and>
   toStringList (data (newQAction\<lparr>data := VStringList [''closeallwindows'']\<rparr>))
     = [''closeallwindows''] \<and>
   actionTriggered exampleEnv exampleApp
       (newQAction\<lparr>data := VStringList [''closeallwindows'']\<rparr>)
     = Inr [otherWindowClose 1, otherWindowClose 2] \<and>
   actionTriggered2 exampleApp (newQAction\<lparr>data := VStringList [''newwindow'']\<rparr>) (Some 1)
     = Inr [newWindow] \<and>
   actionTriggered2 exampleApp (newQAction\<lparr>data := VStringList [''open'']\<rparr>) (Some 1)
     = Inr [pickFile (Some 1)] \<and>
   actionTriggered2 exampleApp (newQAction\<lparr>data := VStringList [''clearrecents'']\<rparr>) (Some 1)
     = Inr [managerClearRecentsList] \<and>
   toStringList (data (newQAction\<lparr>data := VString ''separator''\<rparr>)) = [''separator''] \<and>
   actionTriggered exampleEnv exampleApp (newQAction\<lparr>data := VString ''separator''\<rparr>)
     = Inr []"
proof -
  define q where "q = newQAction\<lparr>data := VStringList [''quit'']\<rparr>"
  define z where "z = newQAction\<lparr>data := VStringList [''zoomin'', ''disable'']\<rparr>"
  define r where "r = newQAction\<lparr>data := VString ''recent3''\<rparr>"
  define ow where "ow = newQAction\<lparr>data := VList [VString ''openwith0'', VOpenWithItem 5]\<rparr>"
  define cw where "cw = newQAction\<lparr>data := VStringList [''closewindow'']\<rparr>"
  define ca where "ca = newQAction\<lparr>data := VStringList [''closeallwindows'']\<rparr>"
  define nw where "nw = newQAction\<lparr>data := VStringList [''newwindow'']\<rparr>"
  define op where "op = newQAction\<lparr>data := VStringList [''open'']\<rparr>"
  define cr where "cr = newQAction\<lparr>data := VStringList [''clearrecents'']\<rparr>"
  define u where "u = newQAction\<lparr>data := VString ''separator''\<rparr>"
  have dq: "toStringList (data q) = ''quit'' # []" by (simp add: q_def)
  have dz: "toStringList (data z) = ''zoomin'' # [''disable'']" by (simp add: z_def)
  have dr: "toStringList (data r) = ''recent3'' # []" by (simp add: r_def)
  have dow: "toStringList (data ow) = ''openwith0'' # ['''']" by (simp add: ow_def)
  have dcw: "toStringList (data cw) = ''closewindow'' # []" by (simp add: cw_def)
  have dca: "toStringList (data ca) = ''closeallwindows'' # []" by (simp add: ca_def)
  have dnw: "toStringList (data nw) = ''newwindow'' # []" by (simp add: nw_def)
  have dop: "toStringList (data op) = ''open'' # []" by (simp add: op_def)
  have dcr: "toStringList (data cr) = ''clearrecents'' # []" by (simp add: cr_def)
  have du: "toStringList (data u) = ''separator'' # []" by (simp add: u_def)
  have wl: "set (windowlessActions exampleEnv) = {''newwindow'', ''quit'', ''clearrecents'', ''open''}"
    by (simp add: windowlessActions_def exampleEnv_def)
  have full: "getMainWindow exampleApp False = Some 1"
    and empty: "getMainWindow exampleApp True = Some 2"
    and act: "activeWindow exampleApp = Some 1"
    and top: "topLevelWindows exampleApp = [1, 2]"
    and cocoa: "\<not> cocoaLoaded exampleApp"
    by (simp_all add: exampleApp_def)
  note tq = actionTriggered_dispatch [OF dq, where e = exampleEnv and ap = exampleApp and w = 1]
  note tz = actionTriggered_dispatch [OF dz, where e = exampleEnv and ap = exampleApp and w = 1]
  note tr = actionTriggered_dispatch [OF dr, where e = exampleEnv and ap = exampleApp and w = 2]
  note tow = actionTriggered_dispatch [OF dow, where e = exampleEnv and ap = exampleApp and w = 1]
  note tcw = actionTriggered_dispatch [OF dcw, where e = exampleEnv and ap = exampleApp and w = 1
      and relevantWindow = "Some 1"]
  note tca = actionTriggered_dispatch [OF dca, where e = exampleEnv and ap = exampleApp and w = 1
      and relevantWindow = "Some 1"]
  note tnw = actionTriggered_dispatch [OF dnw, where e = exampleEnv and ap = exampleApp and w = 1]
  note top' = actionTriggered_dispatch [OF dop, where e = exampleEnv and ap = exampleApp and w = 1]
  note tcr = actionTriggered_dispatch [OF dcr, where e = exampleEnv and ap = exampleApp and w = 1]
  note tu = actionTriggered_dispatch [OF du, where e = exampleEnv and ap = exampleApp and w = 1]
  \<comment> \<open>quit: no window needed; with a window, the window is closed first\<close>
  have q_in: "''quit'' \<in> set (windowlessActions exampleEnv)" by (simp add: wl)
  have q_tab: "(''quit'', [quit]) \<in> set nullWindowCalls" by (simp add: nullWindowCalls_def)
  have rq: "actionTriggered exampleEnv exampleApp q = Inr [quit]"
    using tq [THEN conjunct2, THEN conjunct1, rule_format, OF q_in] tq [THEN conjunct2, THEN conjunct2, THEN conjunct2, THEN conjunct1, rule_format, OF q_tab] by simp
  have rq2: "actionTriggered2 exampleApp q (Some 1) = Inr [OnWindow 1 close, quit]"
    using tq [THEN conjunct2, THEN conjunct2, THEN conjunct2, THEN conjunct2, THEN conjunct2, THEN conjunct2, THEN conjunct2, THEN conjunct2, THEN conjunct2, THEN conjunct1, rule_format] by simp
  \<comment> \<open>zoomin: a window with an image, and its method\<close>
  have z_out: "''zoomin'' \<notin> set (windowlessActions exampleEnv)" by (simp add: wl)
  have z_tab: "(''zoomin'', \<lambda>w. OnWindow w zoomIn) \<in> set windowCalls"
    by (simp add: windowCalls_def)
  have rz: "actionTriggered exampleEnv exampleApp z = Inr [OnWindow 1 zoomIn]"
    using tz [THEN conjunct2, THEN conjunct2, THEN conjunct1, rule_format, OF z_out] tz [THEN conjunct2, THEN conjunct2, THEN conjunct2, THEN conjunct2, THEN conjunct1, rule_format, OF z_tab] by (simp add: full)
  have z_null: "''zoomin'' \<notin> fst ` set nullWindowCalls \<and> ''zoomin'' \<noteq> ''closewindow'' \<and>
      ''zoomin'' \<noteq> ''closeallwindows''"
    by (simp add: nullWindowCalls_def)
  have rz2: "actionTriggered2 exampleApp z None = Inr []"
    using tz [THEN conjunct2, THEN conjunct2, THEN conjunct2, THEN conjunct2, THEN conjunct2, THEN conjunct2, THEN conjunct2, THEN conjunct2, THEN conjunct2, THEN conjunct2, THEN conjunct2, THEN conjunct2, THEN conjunct2, THEN conjunct1, rule_format, OF z_null] .
  \<comment> \<open>recent3: an empty window, and \<open>openRecent(3)\<close>\<close>
  have r_out: "''recent3'' \<notin> set (windowlessActions exampleEnv)" by (simp add: wl)
  have r_pre: "prefix ''recent'' ''recent3''" by simp
  have r_dig: "digitValue CHR ''3'' = 3" by (simp add: digitValue_def)
  have rr: "actionTriggered exampleEnv exampleApp r = Inr [OnWindow 2 (openRecent 3)]"
    using tr [THEN conjunct2, THEN conjunct2, THEN conjunct1, rule_format, OF r_out] tr [THEN conjunct2, THEN conjunct2, THEN conjunct2, THEN conjunct2, THEN conjunct2, THEN conjunct1, rule_format, OF r_pre] by (simp add: empty r_dig)
  \<comment> \<open>openwith0: the item is the second element of the data\<close>
  have ow_out: "''openwith0'' \<notin> set (windowlessActions exampleEnv)" by (simp add: wl)
  have ow_pre: "prefix ''openwith'' ''openwith0'' \<and> ''openwith0'' \<noteq> ''openwithother''" by simp
  have ow_list: "toList (data ow) = [VString ''openwith0'', VOpenWithItem 5]"
    by (simp add: ow_def)
  have row:
    "actionTriggered exampleEnv exampleApp ow = Inr [OnWindow 1 (openWith (VOpenWithItem 5))]"
    using tow [THEN conjunct2, THEN conjunct2, THEN conjunct1, rule_format, OF ow_out] tow [THEN conjunct2, THEN conjunct2, THEN conjunct2, THEN conjunct2, THEN conjunct2, THEN conjunct2, THEN conjunct1, rule_format, OF ow_pre] by (simp add: full ow_list)
  \<comment> \<open>closewindow and closeallwindows: the active window, the top-level windows\<close>
  have cw_out: "''closewindow'' \<notin> set (windowlessActions exampleEnv)" by (simp add: wl)
  have rcw: "actionTriggered exampleEnv exampleApp cw = Inr [otherWindowClose 1]"
    using tcw [THEN conjunct2, THEN conjunct2, THEN conjunct1, rule_format, OF cw_out] tcw [THEN conjunct2, THEN conjunct2, THEN conjunct2, THEN conjunct2, THEN conjunct2, THEN conjunct2, THEN conjunct2, THEN conjunct1, rule_format] by (simp add: full act cocoa)
  have ca_out: "''closeallwindows'' \<notin> set (windowlessActions exampleEnv)" by (simp add: wl)
  have rca:
    "actionTriggered exampleEnv exampleApp ca = Inr [otherWindowClose 1, otherWindowClose 2]"
    using tca [THEN conjunct2, THEN conjunct2, THEN conjunct1, rule_format, OF ca_out] tca [THEN conjunct2, THEN conjunct2, THEN conjunct2, THEN conjunct2, THEN conjunct2, THEN conjunct2, THEN conjunct2, THEN conjunct2, THEN conjunct1, rule_format] by (simp add: full top cocoa)
  \<comment> \<open>the other keys of the first chain, called with a window\<close>
  have rnw: "actionTriggered2 exampleApp nw (Some 1) = Inr [newWindow]"
    using tnw [THEN conjunct2, THEN conjunct2, THEN conjunct2, THEN conjunct2, THEN conjunct2, THEN conjunct2, THEN conjunct2, THEN conjunct2, THEN conjunct2, THEN conjunct2, THEN conjunct1, rule_format] by simp
  have rop: "actionTriggered2 exampleApp op (Some 1) = Inr [pickFile (Some 1)]"
    using top' [THEN conjunct2, THEN conjunct2, THEN conjunct2, THEN conjunct2, THEN conjunct2, THEN conjunct2, THEN conjunct2, THEN conjunct2, THEN conjunct2, THEN conjunct2, THEN conjunct2, THEN conjunct1, rule_format] by simp
  have rcr: "actionTriggered2 exampleApp cr (Some 1) = Inr [managerClearRecentsList]"
    using tcr [THEN conjunct2, THEN conjunct2, THEN conjunct2, THEN conjunct2, THEN conjunct2, THEN conjunct2, THEN conjunct2, THEN conjunct2, THEN conjunct2, THEN conjunct2, THEN conjunct2, THEN conjunct2, THEN conjunct1, rule_format] by simp
  \<comment> \<open>a key that no branch knows\<close>
  have u_out: "''separator'' \<notin> set (windowlessActions exampleEnv)" by (simp add: wl)
  have u_other: "''separator'' \<notin> fst ` set windowCalls \<and>
      ''separator'' \<notin> {''quit'', ''newwindow'', ''open'', ''clearrecents'', ''closewindow'',
                        ''closeallwindows''} \<and>
      \<not> prefix ''recent'' ''separator'' \<and> \<not> prefix ''openwith'' ''separator''"
    by (simp add: windowCalls_def)
  have ru: "actionTriggered exampleEnv exampleApp u = Inr []"
    using tu [THEN conjunct2, THEN conjunct2, THEN conjunct1, rule_format, OF u_out] tu [THEN conjunct2, THEN conjunct2, THEN conjunct2, THEN conjunct2, THEN conjunct2, THEN conjunct2, THEN conjunct2, THEN conjunct2, THEN conjunct2, THEN conjunct2, THEN conjunct2, THEN conjunct2, THEN conjunct2, THEN conjunct2, rule_format, OF u_other] by (simp add: full)
  from dq dz dr dow dcw dca du rq rq2 rz rz2 rr row rcw rca rnw rop rcr ru show ?thesis
    unfolding q_def z_def r_def ow_def cw_def ca_def nw_def op_def cr_def u_def by simp
qed

end
